theory Spec2Isabelle
  imports Main
begin

section \<open>Polygon overlay of two layers (geopandas/tools.py)\<close>

text \<open>
  The module has two functions: \<^verbatim>\<open>_extract_rings(df)\<close> and \<^verbatim>\<open>overlay(df1, df2, how)\<close>.
  Both are embedded below. The geometry kernel (shapely) and the table library (pandas) are
  not part of the module. The kernel's operations are taken as parameters, bundled in the
  record \<open>shapely\<close>; the few table operations the module calls on a row or on the result
  frame are written out as list functions next to the place that uses them.
\<close>

subsection \<open>Geometries\<close>

text \<open>
  A ring is a closed sequence of coordinates; the module never looks inside one, so the
  coordinate type is a parameter. A polygon has the two attributes the module reads:
  \<^verbatim>\<open>exterior\<close> and \<^verbatim>\<open>interiors\<close>.
\<close>

type_synonym 'c ring = "'c list"

record 'c polygon =
  exterior :: "'c ring"
  interiors :: "'c ring list"

datatype 'c geometry =
    Point 'c
  | LineString "'c list"
  | LinearRing "'c ring"
  | Polygon "'c polygon"
  | MultiPoint "'c list"
  | MultiLineString "'c ring list"
  | MultiPolygon "'c polygon list"
  | GeometryCollection "'c geometry list"

text \<open>The attribute \<^verbatim>\<open>geom.type\<close>.\<close>

fun geom_type :: "'c geometry \<Rightarrow> string" where
  "geom_type (Point _) = ''Point''"
| "geom_type (LineString _) = ''LineString''"
| "geom_type (LinearRing _) = ''LinearRing''"
| "geom_type (Polygon _) = ''Polygon''"
| "geom_type (MultiPoint _) = ''MultiPoint''"
| "geom_type (MultiLineString _) = ''MultiLineString''"
| "geom_type (MultiPolygon _) = ''MultiPolygon''"
| "geom_type (GeometryCollection _) = ''GeometryCollection''"

subsection \<open>Errors\<close>

text \<open>
  Every exception that can leave the module is a value. \<open>ValueError how\<close> is the
  exception of line 58 (the spec's InvalidRelation) and carries the offending relation;
  \<open>TypeError msg\<close> is the exception of line 24 (the spec's UnsupportedGeometryType).
  \<open>GeosError e\<close> is an exception raised by a union primitive of the kernel, with its
  message \<open>e\<close>.
  \<open>AttributeError\<close> is raised when an attribute is read that the object does not have:
  \<^verbatim>\<open>geometry\<close> or \<^verbatim>\<open>type\<close> on a row with no usable \<^verbatim>\<open>geometry\<close> entry, \<^verbatim>\<open>exterior\<close> on a
  geometry that is not a polygon. The remaining ones are raised inside pandas:
  \<open>KeyError\<close> when \<^verbatim>\<open>cand['geometry']\<close> finds no entry, \<open>LabelError l\<close> when \<^verbatim>\<open>drop\<close> is
  given a label \<open>l\<close> that is absent or \<^verbatim>\<open>reset_index\<close> cannot insert the column \<open>l\<close>
  (both are ValueError in pandas, kept apart from line 58 here), and \<open>InvalidIndexError\<close>
  when a frame is built from a row with a repeated label.
\<close>

datatype error =
    ValueError string
  | TypeError string
  | GeosError string
  | AttributeError
  | KeyError
  | LabelError string
  | InvalidIndexError

subsection \<open>The geometry kernel\<close>

text \<open>
  The shapely operations the module calls. \<open>buffer0 p\<close> is \<^verbatim>\<open>p.buffer(0)\<close>: the
  result is a geometry of any kind (for a self-touching polygon it is a multi-polygon).
  \<open>unary_union\<close> and \<open>binary_union\<close> (\<^verbatim>\<open>a.union(b)\<close>) may raise; \<open>polygonize\<close>
  yields the faces as a finite sequence, consumed once.
\<close>

record 'c shapely =
  is_valid :: "'c polygon \<Rightarrow> bool"
  buffer0 :: "'c polygon \<Rightarrow> 'c geometry"
  unary_union :: "'c geometry list \<Rightarrow> string + 'c geometry"
  binary_union :: "'c geometry \<Rightarrow> 'c geometry \<Rightarrow> string + 'c geometry"
  polygonize :: "'c geometry \<Rightarrow> 'c polygon list"
  representative_point :: "'c polygon \<Rightarrow> 'c geometry"
  intersects :: "'c geometry \<Rightarrow> 'c geometry \<Rightarrow> bool"

subsection \<open>Rows and frames\<close>

text \<open>
  A cell holds nothing (\<^verbatim>\<open>None\<close>), a geometry, an attribute value, or a label of the
  index of an intermediate frame (\<open>OldIndex i\<close>: the label of row \<open>i\<close>).
  A row (pandas Series) is a list of labelled cells: order and repeated labels matter.
  A frame (GeoDataFrame) has its column names, the name of its geometry column and its
  rows; \<^verbatim>\<open>iterrows\<close> pairs every row with the column names.
\<close>

datatype ('c, 'a) cell = Null | Geom "'c geometry" | Val 'a | OldIndex nat

type_synonym ('c, 'a) series = "(string \<times> ('c, 'a) cell) list"

record ('c, 'a) frame =
  columns :: "string list"
  geometry_column_name :: string
  rows :: "('c, 'a) cell list list"

definition iterrows :: "('c, 'a) frame \<Rightarrow> ('c, 'a) series list" where
  "iterrows df = map (zip (columns df)) (rows df)"

text \<open>
  \<^verbatim>\<open>feat.geometry\<close> and \<^verbatim>\<open>cand['geometry']\<close> read the entry labelled \<^verbatim>\<open>geometry\<close>.
  The module goes on to use the value as one geometry, which it is when exactly one entry
  has that label and holds a geometry.
\<close>

definition labelled :: "string \<Rightarrow> ('c, 'a) series \<Rightarrow> ('c, 'a) cell list" where
  "labelled l s = map snd (filter (\<lambda>kv. fst kv = l) s)"

definition the_geometry :: "('c, 'a) series \<Rightarrow> 'c geometry option" where
  "the_geometry s = (case labelled ''geometry'' s of [Geom g] \<Rightarrow> Some g | _ \<Rightarrow> None)"

subsection \<open>\<^verbatim>\<open>_extract_rings\<close>\<close>

definition poly_msg :: string where
  "poly_msg = ''overlay only takes GeoDataFrames with (multi)polygon geometries''"

text \<open>
  Lines 28-32 and 34-38: the name (\<^verbatim>\<open>poly\<close>, \<^verbatim>\<open>geom\<close>) is bound to the result of
  \<^verbatim>\<open>buffer(0)\<close> when the polygon is invalid, and the rings are read from what the name
  is bound to. Only a polygon has \<^verbatim>\<open>exterior\<close> and \<^verbatim>\<open>interiors\<close>; on any other
  geometry line 31 (or 37) raises.
\<close>

definition append_rings ::
  "'c shapely \<Rightarrow> 'c polygon \<Rightarrow> 'c ring list \<Rightarrow> error + 'c ring list" where
  "append_rings K poly rings =
     (let poly = (if \<not> is_valid K poly then buffer0 K poly else Polygon poly)
      in case poly of
           Polygon poly \<Rightarrow> Inr ((rings @ [exterior poly]) @ interiors poly)
         | _ \<Rightarrow> Inl AttributeError)"

text \<open>Line 27: the loop over the polygons of a multi-polygon.\<close>

fun extract_geoms ::
  "'c shapely \<Rightarrow> 'c polygon list \<Rightarrow> 'c ring list \<Rightarrow> error + 'c ring list" where
  "extract_geoms K [] rings = Inr rings"
| "extract_geoms K (poly # polys) rings =
     (case append_rings K poly rings of
        Inl e \<Rightarrow> Inl e
      | Inr rings \<Rightarrow> extract_geoms K polys rings)"

text \<open>
  Line 20: the loop over the rows, with the list \<^verbatim>\<open>rings\<close> as accumulator. After the
  test of line 23 only the two kinds of geometry are left; \<^verbatim>\<open>hasattr(geom, 'geoms')\<close>
  tells them apart.
\<close>

fun extract_loop ::
  "'c shapely \<Rightarrow> ('c, 'a) series list \<Rightarrow> 'c ring list \<Rightarrow> error + 'c ring list" where
  "extract_loop K [] rings = Inr rings"
| "extract_loop K (feat # feats) rings =
     (case the_geometry feat of
        None \<Rightarrow> Inl AttributeError
      | Some geom \<Rightarrow>
          if geom_type geom \<notin> set [''Polygon'', ''MultiPolygon''] then Inl (TypeError poly_msg)
          else (case geom of
                  MultiPolygon polys \<Rightarrow>
                    (case extract_geoms K polys rings of
                       Inl e \<Rightarrow> Inl e
                     | Inr rings \<Rightarrow> extract_loop K feats rings)
                | Polygon poly \<Rightarrow>
                    (case append_rings K poly rings of
                       Inl e \<Rightarrow> Inl e
                     | Inr rings \<Rightarrow> extract_loop K feats rings)
                | _ \<Rightarrow> Inl (TypeError poly_msg)))"

definition extract_rings :: "'c shapely \<Rightarrow> ('c, 'a) frame \<Rightarrow> error + 'c ring list" where
  "extract_rings K df = extract_loop K (iterrows df) []"

subsection \<open>\<^verbatim>\<open>overlay\<close>\<close>

definition allowed_hows :: "string list" where
  "allowed_hows =
     [''intersection'', ''union'', ''identity'', ''symmetric_difference'', ''difference'']"

text \<open>
  Lines 64-75: both ring lists are wrapped, the fast union is tried, and any exception
  of it is caught by the bare \<^verbatim>\<open>except\<close>, whose handler calls the slow union.
\<close>

definition union_rings ::
  "'c shapely \<Rightarrow> 'c ring list \<Rightarrow> 'c ring list \<Rightarrow> error + 'c geometry" where
  "union_rings K rings1 rings2 =
     (let mls1 = MultiLineString rings1;
          mls2 = MultiLineString rings2
      in case unary_union K [mls1, mls2] of
           Inr mm \<Rightarrow> Inr mm
         | Inl _ \<Rightarrow> (case binary_union K mls1 mls2 of
                       Inr mm \<Rightarrow> Inr mm
                     | Inl e \<Rightarrow> Inl (GeosError e)))"

text \<open>
  Lines 87-95 (and 96-100 for the second layer): the scan with \<^verbatim>\<open>break\<close>. The result
  is the pair of the flag \<^verbatim>\<open>df1_hit\<close> and the row \<^verbatim>\<open>prop1\<close>.
\<close>

fun first_hit ::
  "'c shapely \<Rightarrow> 'c geometry \<Rightarrow> ('c, 'a) series list \<Rightarrow>
     error + (bool \<times> ('c, 'a) series option)" where
  "first_hit K cent [] = Inr (False, None)"
| "first_hit K cent (cand # cands) =
     (case the_geometry cand of
        None \<Rightarrow> Inl (if labelled ''geometry'' cand = [] then KeyError else AttributeError)
      | Some g \<Rightarrow>
          if intersects K cent g then Inr (True, Some cand)
          else first_hit K cent cands)"

text \<open>Lines 103-113: the flag \<^verbatim>\<open>hit\<close>.\<close>

definition hit :: "string \<Rightarrow> bool \<Rightarrow> bool \<Rightarrow> bool" where
  "hit how df1_hit df2_hit =
     (if how = ''intersection'' \<and> (df1_hit \<and> df2_hit) then True
      else if how = ''union'' \<and> (df1_hit \<or> df2_hit) then True
      else if how = ''identity'' \<and> df1_hit then True
      else if how = ''symmetric_difference'' \<and> \<not> (df1_hit \<and> df2_hit) then True
      else if how = ''difference'' \<and> (df1_hit \<and> \<not> df2_hit) then True
      else False)"

text \<open>
  The row operations of lines 120-133. A dict has every key once, so the row of nulls
  has one entry for each column name. \<^verbatim>\<open>drop\<close> removes every entry with the label and
  raises ValueError when there is none, which is the exception that line 129 catches.
  Assignment to a label overwrites the entries that have it and adds an entry at the end
  when there is none.
\<close>

definition null_series :: "string list \<Rightarrow> ('c, 'a) series" where
  "null_series cols = map (\<lambda>c. (c, Null)) (remdups cols)"

definition series_drop :: "string \<Rightarrow> ('c, 'a) series \<Rightarrow> error + ('c, 'a) series" where
  "series_drop l s =
     (if l \<in> set (map fst s) then Inr (filter (\<lambda>kv. fst kv \<noteq> l) s)
      else Inl (LabelError l))"

definition series_setitem ::
  "string \<Rightarrow> ('c, 'a) cell \<Rightarrow> ('c, 'a) series \<Rightarrow> ('c, 'a) series" where
  "series_setitem l v s =
     (if l \<in> set (map fst s) then map (\<lambda>kv. if fst kv = l then (l, v) else kv) s
      else s @ [(l, v)])"

text \<open>
  Lines 119-133: the output row of an included face. The first \<^verbatim>\<open>drop\<close> is not
  guarded; an exception of the second one is swallowed and leaves the row as it was.
\<close>

definition or_nulls :: "string list \<Rightarrow> ('c, 'a) series option \<Rightarrow> ('c, 'a) series" where
  "or_nulls cols prop = (case prop of None \<Rightarrow> null_series cols | Some p \<Rightarrow> p)"

definition gather ::
  "('c, 'a) frame \<Rightarrow> ('c, 'a) frame \<Rightarrow> ('c, 'a) series option \<Rightarrow> ('c, 'a) series option \<Rightarrow>
     'c polygon \<Rightarrow> error + ('c, 'a) series" where
  "gather df1 df2 prop1 prop2 newpoly =
     (let prop1 = or_nulls (columns df1) prop1;
          prop2 = or_nulls (columns df2) prop2;
          out_series = prop1 @ prop2
      in case series_drop (geometry_column_name df1) out_series of
           Inl e \<Rightarrow> Inl e
         | Inr out_series \<Rightarrow>
             let out_series =
                   (case (series_drop (geometry_column_name df2) out_series
                            :: error + ('c, 'a) series) of
                      Inl _ \<Rightarrow> out_series
                    | Inr dropped \<Rightarrow> dropped)
             in Inr (series_setitem ''geometry'' (Geom (Polygon newpoly)) out_series))"

text \<open>
  Lines 81-138: the body of the loop over the faces. \<open>Inr None\<close> is \<^verbatim>\<open>continue\<close>;
  \<open>Inr (Some out_series)\<close> is the row appended to \<^verbatim>\<open>collection\<close>.
\<close>

definition classify ::
  "'c shapely \<Rightarrow> ('c, 'a) frame \<Rightarrow> ('c, 'a) frame \<Rightarrow> string \<Rightarrow> 'c polygon \<Rightarrow>
     error + ('c, 'a) series option" where
  "classify K df1 df2 how newpoly =
     (let cent = representative_point K newpoly
      in case first_hit K cent (iterrows df1) of
           Inl e \<Rightarrow> Inl e
         | Inr (df1_hit, prop1) \<Rightarrow>
             (case first_hit K cent (iterrows df2) of
                Inl e \<Rightarrow> Inl e
              | Inr (df2_hit, prop2) \<Rightarrow>
                  if \<not> hit how df1_hit df2_hit then Inr None
                  else (case gather df1 df2 prop1 prop2 newpoly of
                          Inl e \<Rightarrow> Inl e
                        | Inr out_series \<Rightarrow> Inr (Some out_series))))"

fun classify_loop ::
  "'c shapely \<Rightarrow> ('c, 'a) frame \<Rightarrow> ('c, 'a) frame \<Rightarrow> string \<Rightarrow> 'c polygon list \<Rightarrow>
     ('c, 'a) series list \<Rightarrow> error + ('c, 'a) series list" where
  "classify_loop K df1 df2 how [] collection = Inr collection"
| "classify_loop K df1 df2 how (newpoly # newpolys) collection =
     (case classify K df1 df2 how newpoly of
        Inl e \<Rightarrow> Inl e
      | Inr None \<Rightarrow> classify_loop K df1 df2 how newpolys collection
      | Inr (Some out_series) \<Rightarrow>
          classify_loop K df1 df2 how newpolys (collection @ [out_series]))"

text \<open>
  Lines 141-142, on the result frame. A frame built from rows has the labels of the rows
  as columns and aligns every row to them; a row with a repeated label cannot be aligned.
  \<^verbatim>\<open>reset_index\<close> moves the old index into a new first column, named \<^verbatim>\<open>index\<close>, or
  \<^verbatim>\<open>level_0\<close> when a column \<^verbatim>\<open>index\<close> exists already, and raises when the name is
  taken. \<^verbatim>\<open>drop(l, axis=1)\<close> removes every column named \<open>l\<close> and raises when there is
  none. The order in which the result lists its columns is the order of first appearance
  here; no statement below depends on it.
\<close>

definition from_series :: "('c, 'a) series list \<Rightarrow> error + ('c, 'a) frame" where
  "from_series collection =
     (if \<exists>s \<in> set collection. \<not> distinct (map fst s) then Inl InvalidIndexError
      else let cols = remdups (concat (map (map fst) collection))
           in Inr \<lparr>columns = cols, geometry_column_name = ''geometry'',
                   rows = map (\<lambda>s. map (\<lambda>c. case map_of s c of None \<Rightarrow> Null | Some v \<Rightarrow> v) cols)
                            collection\<rparr>)"

definition reset_index :: "('c, 'a) frame \<Rightarrow> error + ('c, 'a) frame" where
  "reset_index gdf =
     (let name = (if ''index'' \<notin> set (columns gdf) then ''index'' else ''level_0'')
      in if name \<in> set (columns gdf) then Inl (LabelError name)
         else Inr (gdf\<lparr>columns := name # columns gdf,
                       rows := map (\<lambda>(i, r). OldIndex i # r) (enumerate 0 (rows gdf))\<rparr>))"

definition drop_column :: "string \<Rightarrow> ('c, 'a) frame \<Rightarrow> error + ('c, 'a) frame" where
  "drop_column l gdf =
     (if l \<notin> set (columns gdf) then Inl (LabelError l)
      else Inr (gdf\<lparr>columns := filter (\<lambda>c. c \<noteq> l) (columns gdf),
                    rows := map (\<lambda>r. map snd (filter (\<lambda>kv. fst kv \<noteq> l) (zip (columns gdf) r)))
                              (rows gdf)\<rparr>))"

text \<open>Lines 62-75: the merged line network of the two layers.\<close>

definition merged ::
  "'c shapely \<Rightarrow> ('c, 'a) frame \<Rightarrow> ('c, 'a) frame \<Rightarrow> error + 'c geometry" where
  "merged K df1 df2 =
     (case extract_rings K df1 of
        Inl e \<Rightarrow> Inl e
      | Inr rings1 \<Rightarrow>
          (case extract_rings K df2 of
             Inl e \<Rightarrow> Inl e
           | Inr rings2 \<Rightarrow> union_rings K rings1 rings2))"

text \<open>Lines 141-142.\<close>

definition clean_up :: "('c, 'a) series list \<Rightarrow> error + ('c, 'a) frame" where
  "clean_up collection =
     (case from_series collection of
        Inl e \<Rightarrow> Inl e
      | Inr gdf \<Rightarrow>
          (case reset_index gdf of
             Inl e \<Rightarrow> Inl e
           | Inr gdf \<Rightarrow> drop_column ''index'' gdf))"

definition overlay ::
  "'c shapely \<Rightarrow> ('c, 'a) frame \<Rightarrow> ('c, 'a) frame \<Rightarrow> string \<Rightarrow>
     error + ('c, 'a) frame" where
  "overlay K df1 df2 how =
     (if how \<notin> set allowed_hows then Inl (ValueError how)
      else case merged K df1 df2 of
             Inl e \<Rightarrow> Inl e
           | Inr mm \<Rightarrow>
               (case classify_loop K df1 df2 how (polygonize K mm) [] of
                  Inl e \<Rightarrow> Inl e
                | Inr collection \<Rightarrow> clean_up collection))"

subsection \<open>Notions used in the statements\<close>

text \<open>
  The flag \<^verbatim>\<open>df1_hit\<close> (or \<^verbatim>\<open>df2_hit\<close>) that the scan of a layer leaves for a face, and
  whether a row is a match for the probe point.
\<close>

definition df_hit :: "'c shapely \<Rightarrow> ('c, 'a) frame \<Rightarrow> 'c polygon \<Rightarrow> bool" where
  "df_hit K df newpoly =
     (case first_hit K (representative_point K newpoly) (iterrows df) of
        Inl _ \<Rightarrow> False
      | Inr (flag, _) \<Rightarrow> flag)"

definition is_match :: "'c shapely \<Rightarrow> 'c geometry \<Rightarrow> ('c, 'a) series \<Rightarrow> bool" where
  "is_match K cent cand =
     (case the_geometry cand of None \<Rightarrow> False | Some g \<Rightarrow> intersects K cent g)"

text \<open>The cells of the column \<open>l\<close> of a frame, row by row.\<close>

definition column_cells :: "string \<Rightarrow> ('c, 'a) frame \<Rightarrow> ('c, 'a) cell option list" where
  "column_cells l gdf = map (\<lambda>r. map_of (zip (columns gdf) r) l) (rows gdf)"

text \<open>
  The decision table of the specification (section 4.4), row by row. A relation outside
  the table includes nothing.
\<close>

definition decision_table :: "string \<Rightarrow> bool \<Rightarrow> bool \<Rightarrow> bool" where
  "decision_table relation df1_hit df2_hit =
     (if relation = ''intersection'' then df1_hit \<and> df2_hit
      else if relation = ''union'' then df1_hit \<or> df2_hit
      else if relation = ''identity'' then df1_hit
      else if relation = ''symmetric_difference'' then \<not> (df1_hit \<and> df2_hit)
      else if relation = ''difference'' then df1_hit \<and> \<not> df2_hit
      else False)"

text \<open>
  The geometries of the features of a frame; a frame in which every feature has one; a
  frame with a feature whose geometry is of a kind other than the two that line 23 admits.
\<close>

definition geometries :: "('c, 'a) frame \<Rightarrow> 'c geometry list" where
  "geometries df = List.map_filter the_geometry (iterrows df)"

definition has_geometries :: "('c, 'a) frame \<Rightarrow> bool" where
  "has_geometries df = list_all (\<lambda>feat. the_geometry feat \<noteq> None) (iterrows df)"

definition supported :: "'c geometry \<Rightarrow> bool" where
  "supported g = (geom_type g = ''Polygon'' \<or> geom_type g = ''MultiPolygon'')"

definition unsupported :: "('c, 'a) frame \<Rightarrow> bool" where
  "unsupported df = list_ex (\<lambda>g. \<not> supported g) (geometries df)"

text \<open>
  The ring sequence of the specification (section 4.1): the features in collection order,
  the polygons of each in order, every invalid polygon repaired, and for each polygon the
  exterior ring followed by the interior rings. The repair of the specification yields a
  polygon; \<open>repaired\<close> is that polygon when \<^verbatim>\<open>buffer(0)\<close> returns one.
\<close>

fun constituent_polygons :: "'c geometry \<Rightarrow> 'c polygon list" where
  "constituent_polygons (Polygon p) = [p]"
| "constituent_polygons (MultiPolygon ps) = ps"
| "constituent_polygons _ = []"

definition repaired :: "'c shapely \<Rightarrow> 'c polygon \<Rightarrow> 'c polygon option" where
  "repaired K p =
     (if is_valid K p then Some p
      else case buffer0 K p of Polygon q \<Rightarrow> Some q | _ \<Rightarrow> None)"

definition polygon_rings :: "'c shapely \<Rightarrow> 'c polygon \<Rightarrow> 'c ring list" where
  "polygon_rings K p =
     (case repaired K p of None \<Rightarrow> [] | Some q \<Rightarrow> exterior q # interiors q)"

definition ring_sequence :: "'c shapely \<Rightarrow> 'c geometry list \<Rightarrow> 'c ring list" where
  "ring_sequence K gs = concat (map (\<lambda>g. concat (map (polygon_rings K) (constituent_polygons g))) gs)"

text \<open>
  A feature that lines 21-38 process without an exception: it has a geometry, the
  geometry is a polygon or a multi-polygon, and the repair of each of its invalid
  polygons is a polygon.
\<close>

definition extractable :: "'c shapely \<Rightarrow> ('c, 'a) series \<Rightarrow> bool" where
  "extractable K feat =
     (case the_geometry feat of
        None \<Rightarrow> False
      | Some g \<Rightarrow> supported g \<and> list_all (\<lambda>p. repaired K p \<noteq> None) (constituent_polygons g))"

text \<open>
  The output schema of the specification (section 4.5): the non-geometry columns of both
  layers and \<^verbatim>\<open>geometry\<close>.
\<close>

definition schema_union :: "('c, 'a) frame \<Rightarrow> ('c, 'a) frame \<Rightarrow> string set" where
  "schema_union df1 df2 =
     {c \<in> set (columns df1). c \<noteq> geometry_column_name df1} \<union>
     {c \<in> set (columns df2). c \<noteq> geometry_column_name df2} \<union> {''geometry''}"

subsection \<open>\<^verbatim>\<open>_extract_rings\<close> over a store of geometry objects\<close>

text \<open>
  To say what \<^verbatim>\<open>_extract_rings\<close> does to the geometries it is given, the geometry
  column is read here as a list of references into a store of objects (a reference is a
  position in the store), and the function returns the store next to its result. The only
  statements that touch the store are the two calls \<^verbatim>\<open>buffer(0)\<close>: each builds a new
  object, of whatever kind, and the local name (\<^verbatim>\<open>poly\<close>, \<^verbatim>\<open>geom\<close>) is bound to it;
  the rings are then read from that object. A reference to nothing stands for a feature
  without geometry.
\<close>

type_synonym 'c store = "'c geometry list"

definition alloc :: "'c geometry \<Rightarrow> 'c store \<Rightarrow> nat \<times> 'c store" where
  "alloc g h = (length h, h @ [g])"

definition append_rings_st ::
  "'c shapely \<Rightarrow> 'c polygon \<Rightarrow> 'c ring list \<Rightarrow> 'c store \<Rightarrow>
     (error + 'c ring list) \<times> 'c store" where
  "append_rings_st K poly rings h =
     (if \<not> is_valid K poly then
        (let (a, h) = alloc (buffer0 K poly) h
         in case h ! a of
              Polygon poly \<Rightarrow> (Inr ((rings @ [exterior poly]) @ interiors poly), h)
            | _ \<Rightarrow> (Inl AttributeError, h))
      else (Inr ((rings @ [exterior poly]) @ interiors poly), h))"

fun extract_geoms_st ::
  "'c shapely \<Rightarrow> 'c polygon list \<Rightarrow> 'c ring list \<Rightarrow> 'c store \<Rightarrow>
     (error + 'c ring list) \<times> 'c store" where
  "extract_geoms_st K [] rings h = (Inr rings, h)"
| "extract_geoms_st K (poly # polys) rings h =
     (case append_rings_st K poly rings h of
        (Inl e, h) \<Rightarrow> (Inl e, h)
      | (Inr rings, h) \<Rightarrow> extract_geoms_st K polys rings h)"

fun extract_loop_st ::
  "'c shapely \<Rightarrow> nat list \<Rightarrow> 'c ring list \<Rightarrow> 'c store \<Rightarrow>
     (error + 'c ring list) \<times> 'c store" where
  "extract_loop_st K [] rings h = (Inr rings, h)"
| "extract_loop_st K (ref # refs) rings h =
     (if length h \<le> ref then (Inl AttributeError, h)
      else let geom = h ! ref
           in if geom_type geom \<notin> set [''Polygon'', ''MultiPolygon'']
              then (Inl (TypeError poly_msg), h)
              else (case geom of
                      MultiPolygon polys \<Rightarrow>
                        (case extract_geoms_st K polys rings h of
                           (Inl e, h) \<Rightarrow> (Inl e, h)
                         | (Inr rings, h) \<Rightarrow> extract_loop_st K refs rings h)
                    | Polygon poly \<Rightarrow>
                        (case append_rings_st K poly rings h of
                           (Inl e, h) \<Rightarrow> (Inl e, h)
                         | (Inr rings, h) \<Rightarrow> extract_loop_st K refs rings h)
                    | _ \<Rightarrow> (Inl (TypeError poly_msg), h)))"

definition extract_rings_st ::
  "'c shapely \<Rightarrow> nat list \<Rightarrow> 'c store \<Rightarrow> (error + 'c ring list) \<times> 'c store" where
  "extract_rings_st K refs h = extract_loop_st K refs [] h"

text \<open>A frame whose features have, in order, the geometries that the references name.\<close>

definition stored_in :: "('c, 'a) frame \<Rightarrow> nat list \<Rightarrow> 'c store \<Rightarrow> bool" where
  "stored_in df refs h =
     (list_all (\<lambda>ref. ref < length h) refs \<and>
      map the_geometry (iterrows df) = map (\<lambda>ref. Some (h ! ref)) refs)"

subsection \<open>A small instance\<close>

text \<open>
  Scenario A of the specification, with the coordinates multiplied by four: the first
  layer is the square from (0,0) to (4,4), the second the square from (2,2) to (6,6).
  The kernel below answers for these two squares: the arrangement has the three faces
  \<open>face_left\<close>, \<open>face_both\<close> and \<open>face_right\<close>, and a point meets a square when it
  lies in its bounding box. A ring is valid when it is closed and visits no vertex twice;
  the repair of an open ring closes it. \<open>bowtie\<close> is the self-touching polygon of the
  shapely manual, whose \<^verbatim>\<open>buffer(0)\<close> is the multi-polygon of its two triangles.
\<close>

type_synonym coord = "int \<times> int"

definition square :: "int \<Rightarrow> int \<Rightarrow> coord polygon" where
  "square a b = \<lparr>exterior = [(a, a), (b, a), (b, b), (a, b), (a, a)], interiors = []\<rparr>"

definition face_left :: "coord polygon" where
  "face_left = \<lparr>exterior = [(0, 0), (4, 0), (4, 2), (2, 2), (2, 4), (0, 4), (0, 0)],
                 interiors = []\<rparr>"

definition face_both :: "coord polygon" where
  "face_both = square 2 4"

definition face_right :: "coord polygon" where
  "face_right = \<lparr>exterior = [(4, 2), (6, 2), (6, 6), (2, 6), (2, 4), (4, 4), (4, 2)],
                  interiors = []\<rparr>"

definition in_box :: "coord \<Rightarrow> coord ring \<Rightarrow> bool" where
  "in_box pt ring =
     (list_ex (\<lambda>c. fst c \<le> fst pt \<and> snd c \<le> snd pt) ring \<and>
      list_ex (\<lambda>c. fst pt \<le> fst c \<and> snd pt \<le> snd c) ring)"

definition bowtie :: "coord polygon" where
  "bowtie = \<lparr>exterior = [(0, 0), (0, 2), (1, 1), (2, 2), (2, 0), (1, 1), (0, 0)],
              interiors = []\<rparr>"

definition bowtie_halves :: "coord polygon list" where
  "bowtie_halves =
     [\<lparr>exterior = [(0, 0), (0, 2), (1, 1), (0, 0)], interiors = []\<rparr>,
      \<lparr>exterior = [(1, 1), (2, 2), (2, 0), (1, 1)], interiors = []\<rparr>]"

definition squares_kernel :: "coord shapely" where
  "squares_kernel =
     \<lparr>is_valid = (\<lambda>p. exterior p \<noteq> [] \<and> hd (exterior p) = last (exterior p) \<and>
                      distinct (butlast (exterior p))),
      buffer0 = (\<lambda>p. if p = bowtie then MultiPolygon bowtie_halves
                      else Polygon (p\<lparr>exterior := exterior p @ take 1 (exterior p)\<rparr>)),
      unary_union = (\<lambda>gs. Inr (GeometryCollection gs)),
      binary_union = (\<lambda>a b. Inr (GeometryCollection [a, b])),
      polygonize = (\<lambda>mm. [face_left, face_both, face_right]),
      representative_point =
        (\<lambda>p. Point (if p = face_left then (1, 1) else if p = face_both then (3, 3) else (5, 5))),
      intersects =
        (\<lambda>a b. case (a, b) of (Point pt, Polygon q) \<Rightarrow> in_box pt (exterior q) | _ \<Rightarrow> False)\<rparr>"

definition layer1 :: "(coord, string) frame" where
  "layer1 = \<lparr>columns = [''name'', ''geometry''], geometry_column_name = ''geometry'',
              rows = [[Val ''A'', Geom (Polygon (square 0 4))]]\<rparr>"

definition bowtie_layer :: "(coord, string) frame" where
  "bowtie_layer = \<lparr>columns = [''name'', ''geometry''], geometry_column_name = ''geometry'',
                    rows = [[Val ''E'', Geom (Polygon bowtie)]]\<rparr>"

definition layer2 :: "(coord, string) frame" where
  "layer2 = \<lparr>columns = [''kind'', ''geometry''], geometry_column_name = ''geometry'',
              rows = [[Val ''B'', Geom (Polygon (square 2 6))]]\<rparr>"

section \<open>Properties of the parts\<close>

subsection \<open>The decision and the rows of the included faces\<close>

text \<open>
  The flag of the code is the table, every appended row carries its face under
  \<^verbatim>\<open>geometry\<close>, and the loop appends a row for exactly the faces the table includes.
\<close>

lemma hit_table: "hit how a b = decision_table how a b"
  by (simp add: hit_def decision_table_def)

lemma map_of_overwrite:
  "l \<in> fst ` set s \<Longrightarrow> map_of (map (\<lambda>kv. if fst kv = l then (l, v) else kv) s) l = Some v"
  by (induction s) auto

lemma map_of_setitem: "map_of (series_setitem l v s) l = Some v"
  by (cases "l \<in> fst ` set s") (simp_all add: series_setitem_def map_of_overwrite map_add_def map_of_eq_None_iff [THEN iffD2])

lemma gather_geometry:
  "gather df1 df2 p1 p2 newpoly = Inr s \<Longrightarrow> map_of s ''geometry'' = Some (Geom (Polygon newpoly))"
  unfolding gather_def Let_def
  by (auto split: sum.splits simp: map_of_setitem)

lemma classify_None:
  "classify K df1 df2 how p = Inr None \<Longrightarrow> \<not> decision_table how (df_hit K df1 p) (df_hit K df2 p)"
  unfolding classify_def Let_def df_hit_def
  by (auto split: sum.splits if_splits prod.splits simp: hit_table)

lemma classify_Some:
  "classify K df1 df2 how p = Inr (Some s) \<Longrightarrow>
     decision_table how (df_hit K df1 p) (df_hit K df2 p) \<and>
     map_of s ''geometry'' = Some (Geom (Polygon p))"
  unfolding classify_def Let_def df_hit_def
  by (auto split: sum.splits if_splits prod.splits simp: hit_table gather_geometry)

lemma classify_loop_acc:
  "classify_loop K df1 df2 how ps acc = Inr c \<Longrightarrow>
     \<exists>c'. c = acc @ c' \<and>
       map (\<lambda>s. map_of s ''geometry'') c' =
       map (\<lambda>p. Some (Geom (Polygon p)))
         (filter (\<lambda>p. decision_table how (df_hit K df1 p) (df_hit K df2 p)) ps)"
proof (induction ps arbitrary: acc)
  case Nil
  then show ?case by simp
next
  case (Cons p ps)
  show ?case
  proof (cases "classify K df1 df2 how p")
    case (Inl e)
    with Cons.prems show ?thesis by simp
  next
    case (Inr r)
    show ?thesis
    proof (cases r)
      case None
      with Inr Cons.prems have "classify_loop K df1 df2 how ps acc = Inr c" by simp
      from Cons.IH [OF this] classify_None [of K df1 df2 how p] Inr None
      show ?thesis by simp
    next
      case (Some s)
      with Inr Cons.prems have "classify_loop K df1 df2 how ps (acc @ [s]) = Inr c" by simp
      from Cons.IH [OF this] classify_Some [of K df1 df2 how p s] Inr Some
      show ?thesis by auto
    qed
  qed
qed

subsection \<open>The result frame\<close>

text \<open>What the three frame operations do to the columns and to the cells of a column.\<close>

lemma zip_filter_fst:
  "zip (filter P cols) (map snd (filter (\<lambda>kv. P (fst kv)) (zip cols r))) =
   filter (\<lambda>kv. P (fst kv)) (zip cols r)"
proof (induction cols arbitrary: r)
  case Nil
  then show ?case by simp
next
  case (Cons c cols)
  then show ?case by (cases r) auto
qed

lemma map_of_filter_other:
  "l' \<noteq> l \<Longrightarrow> map_of (filter (\<lambda>kv. fst kv \<noteq> l) xs) l' = map_of xs l'"
  by (induction xs) auto

lemma column_cells_drop:
  assumes "drop_column l gdf = Inr out" and "l' \<noteq> l"
  shows "column_cells l' out = column_cells l' gdf"
proof -
  from assms(1) have out: "out = gdf\<lparr>columns := filter (\<lambda>c. c \<noteq> l) (columns gdf),
      rows := map (\<lambda>r. map snd (filter (\<lambda>kv. fst kv \<noteq> l) (zip (columns gdf) r))) (rows gdf)\<rparr>"
    by (auto simp: drop_column_def split: if_splits)
  show ?thesis
    unfolding column_cells_def out
    by (simp add: o_def zip_filter_fst [of "\<lambda>c. c \<noteq> l"] map_of_filter_other [OF assms(2)])
qed

lemma columns_drop:
  "drop_column l gdf = Inr out \<Longrightarrow> columns out = filter (\<lambda>c. c \<noteq> l) (columns gdf)"
  by (auto simp: drop_column_def split: if_splits)

lemma map_enumerate_snd: "map (\<lambda>(i, r). f r) (enumerate n xs) = map f xs"
  by (induction xs arbitrary: n) auto

lemma column_cells_reset:
  assumes "reset_index gdf = Inr out" and "l \<in> set (columns gdf)"
  shows "column_cells l out = column_cells l gdf"
proof -
  define name where "name = (if ''index'' \<notin> set (columns gdf) then ''index'' else ''level_0'')"
  from assms(1) have fresh: "name \<notin> set (columns gdf)"
    and out: "out = gdf\<lparr>columns := name # columns gdf,
       rows := map (\<lambda>(i, r). OldIndex i # r) (enumerate 0 (rows gdf))\<rparr>"
    by (auto simp: reset_index_def name_def Let_def split: if_splits)
  from fresh assms(2) have ne: "l \<noteq> name" by auto
  have "column_cells l out =
      map (\<lambda>(i, r). map_of (zip (columns gdf) r) l) (enumerate 0 (rows gdf))"
    unfolding column_cells_def out using ne by (simp add: o_def split_def)
  then show ?thesis by (simp add: map_enumerate_snd column_cells_def)
qed

lemma columns_reset:
  "reset_index gdf = Inr out \<Longrightarrow>
   \<exists>name. name \<notin> set (columns gdf) \<and> columns out = name # columns gdf \<and>
     (name = ''index'' \<or> name = ''level_0'' \<and> ''index'' \<in> set (columns gdf))"
  by (auto simp: reset_index_def Let_def split: if_splits)

lemma from_series_columns:
  "from_series collection = Inr gdf \<Longrightarrow>
     columns gdf = remdups (concat (map (map fst) collection)) \<and>
     (\<forall>s \<in> set collection. distinct (map fst s))"
  by (auto simp: from_series_def Let_def split: if_splits)

lemma column_cells_from_series:
  assumes "from_series collection = Inr gdf"
    and "\<forall>s \<in> set collection. l \<in> fst ` set s"
  shows "column_cells l gdf = map (\<lambda>s. map_of s l) collection"
proof -
  define cols where "cols = remdups (concat (map (map fst) collection))"
  from assms(1) have gdf: "gdf = \<lparr>columns = cols, geometry_column_name = ''geometry'',
      rows = map (\<lambda>s. map (\<lambda>c. case map_of s c of None \<Rightarrow> Null | Some v \<Rightarrow> v) cols) collection\<rparr>"
    by (auto simp: from_series_def Let_def cols_def split: if_splits)
  have "map_of (zip cols (map (\<lambda>c. case map_of s c of None \<Rightarrow> Null | Some v \<Rightarrow> v) cols)) l
          = map_of s l" if "s \<in> set collection" for s
  proof -
    from that assms(2) have "l \<in> fst ` set s" by blast
    then obtain v where v: "map_of s l = Some v"
      by (metis map_of_eq_None_iff not_Some_eq)
    from that \<open>l \<in> fst ` set s\<close> have "l \<in> set cols" by (auto simp: cols_def)
    then show ?thesis by (simp add: map_of_zip_map v)
  qed
  then show ?thesis unfolding column_cells_def gdf by (simp add: o_def)
qed

subsection \<open>The scan and the output row\<close>

text \<open>
  The scan is \<open>find\<close>; the output row is the concatenated row filtered by the two
  geometry column names, so the entries under any other label are those of the two parts.
\<close>

lemma first_hit_find:
  "\<forall>cand \<in> set cands. the_geometry cand \<noteq> None \<Longrightarrow>
   first_hit K cent cands =
     Inr (find (is_match K cent) cands \<noteq> None, find (is_match K cent) cands)"
  by (induction cands) (auto simp: is_match_def)

lemma first_hit_Inr:
  "first_hit K cent cands = Inr r \<Longrightarrow>
   r = (find (is_match K cent) cands \<noteq> None, find (is_match K cent) cands)"
  by (induction cands) (auto simp: is_match_def split: option.splits if_splits)

lemma series_drop_Inr:
  "(series_drop l s :: error + ('c, 'a) series) = Inr t \<Longrightarrow> t = filter (\<lambda>kv. fst kv \<noteq> l) s"
  by (auto simp: series_drop_def split: if_splits)

lemma series_drop_Inl:
  "(series_drop l s :: error + ('c, 'a) series) = Inl e \<Longrightarrow> filter (\<lambda>kv. fst kv \<noteq> l) s = s"
  by (auto simp: series_drop_def filter_id_conv split: if_splits)

lemma series_drop_present:
  "l \<in> fst ` set s \<Longrightarrow> series_drop l s = Inr (filter (\<lambda>kv. fst kv \<noteq> l) s)"
  by (simp add: series_drop_def)

lemma second_drop:
  "(case (series_drop l s :: error + ('c, 'a) series) of Inl _ \<Rightarrow> s | Inr dropped \<Rightarrow> dropped)
     = filter (\<lambda>kv. fst kv \<noteq> l) s"
  by (auto split: sum.splits dest: series_drop_Inr series_drop_Inl)

lemma gather_present:
  assumes "geometry_column_name df1 \<in> fst ` set (or_nulls (columns df1) prop1 @ or_nulls (columns df2) prop2)"
  shows "gather df1 df2 prop1 prop2 newpoly =
     Inr (series_setitem ''geometry'' (Geom (Polygon newpoly))
           (filter (\<lambda>kv. fst kv \<noteq> geometry_column_name df1 \<and> fst kv \<noteq> geometry_column_name df2)
              (or_nulls (columns df1) prop1 @ or_nulls (columns df2) prop2)))"
  unfolding gather_def Let_def
  by (simp only: series_drop_present [OF assms] sum.case second_drop filter_filter)

lemma gather_Inr:
  assumes "gather df1 df2 prop1 prop2 newpoly = Inr out"
  shows "out = series_setitem ''geometry'' (Geom (Polygon newpoly))
           (filter (\<lambda>kv. fst kv \<noteq> geometry_column_name df1 \<and> fst kv \<noteq> geometry_column_name df2)
              (or_nulls (columns df1) prop1 @ or_nulls (columns df2) prop2))"
proof -
  have "geometry_column_name df1 \<in> fst ` set (or_nulls (columns df1) prop1 @ or_nulls (columns df2) prop2)"
    using assms unfolding gather_def Let_def
    by (auto simp: series_drop_def split: if_splits sum.splits)
  with assms show ?thesis by (simp only: gather_present sum.inject)
qed

lemma labelled_overwrite:
  "c \<noteq> l \<Longrightarrow> labelled c (map (\<lambda>kv. if fst kv = l then (l, v) else kv) s) = labelled c s"
  by (induction s) (auto simp: labelled_def)

lemma labelled_append: "labelled c (s @ t) = labelled c s @ labelled c t"
  by (simp add: labelled_def)

lemma labelled_setitem:
  "c \<noteq> l \<Longrightarrow> labelled c (series_setitem l v s) = labelled c s"
  by (simp add: series_setitem_def labelled_overwrite labelled_append) (simp add: labelled_def)

lemma labelled_filter:
  "P c \<Longrightarrow> labelled c (filter (\<lambda>kv. P (fst kv)) s) = labelled c s"
  by (induction s) (auto simp: labelled_def)

lemma labelled_absent: "c \<notin> fst ` set s \<Longrightarrow> labelled c s = []"
  by (induction s) (auto simp: labelled_def)

lemma labelled_nulls_distinct:
  "distinct xs \<Longrightarrow> c \<in> set xs \<Longrightarrow> labelled c (map (\<lambda>c. (c, Null)) xs) = [Null]"
proof (induction xs)
  case Nil
  then show ?case by simp
next
  case (Cons x xs)
  show ?case
  proof (cases "x = c")
    case True
    with Cons.prems have "c \<notin> fst ` set (map (\<lambda>c. (c, Null)) xs)" by (auto simp: image_iff)
    from labelled_absent [OF this] True show ?thesis by (simp add: labelled_def)
  next
    case False
    with Cons show ?thesis by (simp add: labelled_def)
  qed
qed

lemma labelled_null_series:
  "c \<in> set cols \<Longrightarrow> labelled c (null_series cols) = [Null]"
  by (simp add: null_series_def labelled_nulls_distinct)

lemma gather_labelled:
  assumes "gather df1 df2 prop1 prop2 newpoly = Inr out"
    and "c \<noteq> ''geometry''" "c \<noteq> geometry_column_name df1" "c \<noteq> geometry_column_name df2"
  shows "labelled c out =
     labelled c (or_nulls (columns df1) prop1) @ labelled c (or_nulls (columns df2) prop2)"
proof -
  let ?s = "or_nulls (columns df1) prop1 @ or_nulls (columns df2) prop2"
  have "labelled c (filter (\<lambda>kv. fst kv \<noteq> geometry_column_name df1 \<and>
            fst kv \<noteq> geometry_column_name df2) ?s) = labelled c ?s"
    using assms(3,4)
    by (intro labelled_filter [of "\<lambda>l. l \<noteq> geometry_column_name df1 \<and> l \<noteq> geometry_column_name df2"]) simp
  then show ?thesis
    unfolding gather_Inr [OF assms(1)] labelled_setitem [OF assms(2)]
    by (simp only: labelled_append)
qed

subsection \<open>Ring extraction\<close>

text \<open>
  One step of the loop for each kind of row, and from them the result of the loop: the
  ring sequence when every row is extractable, the TypeError of line 24 when the first
  row that is not extractable has a geometry of another kind, and no TypeError at all
  unless some geometry is of another kind.
\<close>

lemma append_rings_repaired:
  "repaired K p = Some q \<Longrightarrow> append_rings K p rings = Inr (rings @ exterior q # interiors q)"
  by (auto simp: append_rings_def repaired_def Let_def split: if_splits geometry.splits)

lemma append_rings_unrepaired:
  "repaired K p = None \<Longrightarrow> append_rings K p rings = Inl AttributeError"
  by (auto simp: append_rings_def repaired_def Let_def split: if_splits geometry.splits)

lemma append_rings_Inl: "append_rings K p rings = Inl e \<Longrightarrow> e = AttributeError"
  by (auto simp: append_rings_def Let_def split: if_splits geometry.splits)

lemma append_rings_eq:
  "repaired K p \<noteq> None \<Longrightarrow> append_rings K p rings = Inr (rings @ polygon_rings K p)"
  by (auto simp: polygon_rings_def append_rings_repaired)

lemma extract_geoms_eq:
  "list_all (\<lambda>p. repaired K p \<noteq> None) ps \<Longrightarrow>
   extract_geoms K ps rings = Inr (rings @ concat (map (polygon_rings K) ps))"
  by (induction ps arbitrary: rings) (simp_all add: append_rings_eq)

lemma extract_geoms_Inl: "extract_geoms K ps rings = Inl e \<Longrightarrow> e = AttributeError"
  by (induction ps arbitrary: rings) (auto split: sum.splits dest: append_rings_Inl)

lemma supported_cases:
  "supported g \<Longrightarrow> (\<exists>p. g = Polygon p) \<or> (\<exists>ps. g = MultiPolygon ps)"
  by (cases g) (simp_all add: supported_def)

lemma extract_loop_step:
  assumes "the_geometry feat = Some g" and "supported g"
    and "list_all (\<lambda>p. repaired K p \<noteq> None) (constituent_polygons g)"
  shows "extract_loop K (feat # feats) rings =
     extract_loop K feats (rings @ concat (map (polygon_rings K) (constituent_polygons g)))"
  using supported_cases [OF assms(2)] assms(1,3)
  by (auto simp: append_rings_eq extract_geoms_eq)

lemma extract_loop_bad:
  "the_geometry feat = Some g \<Longrightarrow> \<not> supported g \<Longrightarrow>
   extract_loop K (feat # feats) rings = Inl (TypeError poly_msg)"
  by (cases g) (simp_all add: supported_def)

lemma extract_loop_none:
  "the_geometry feat = None \<Longrightarrow> extract_loop K (feat # feats) rings = Inl AttributeError"
  by simp

lemma extract_loop_supported:
  assumes "the_geometry feat = Some g" and "supported g"
  shows "extract_loop K (feat # feats) rings = Inl AttributeError \<or>
     (\<exists>rings'. extract_loop K (feat # feats) rings = extract_loop K feats rings')"
  using supported_cases [OF assms(2)] assms(1)
  by (auto split: sum.splits dest: append_rings_Inl extract_geoms_Inl)

lemma extract_loop_extractable:
  "list_all (extractable K) feats \<Longrightarrow>
   extract_loop K feats rings = Inr (rings @ ring_sequence K (List.map_filter the_geometry feats))"
proof (induction feats arbitrary: rings)
  case Nil
  then show ?case by (simp add: ring_sequence_def)
next
  case (Cons feat feats)
  then obtain g where g: "the_geometry feat = Some g" "supported g"
    "list_all (\<lambda>p. repaired K p \<noteq> None) (constituent_polygons g)"
    by (auto simp: extractable_def split: option.splits)
  from Cons have "extract_loop K feats rings' =
      Inr (rings' @ ring_sequence K (List.map_filter the_geometry feats))" for rings'
    by simp
  then show ?case
    using g by (simp add: extract_loop_step ring_sequence_def del: extract_loop.simps)
qed

lemma extract_loop_stops:
  assumes "list_all (extractable K) pre" and "the_geometry feat = Some g" and "\<not> supported g"
  shows "extract_loop K (pre @ feat # post) rings = Inl (TypeError poly_msg)"
  using assms(1)
proof (induction pre arbitrary: rings)
  case Nil
  from assms(2,3) show ?case by (simp add: extract_loop_bad del: extract_loop.simps)
next
  case (Cons f pre)
  then obtain g' where g': "the_geometry f = Some g'" "supported g'"
    "list_all (\<lambda>p. repaired K p \<noteq> None) (constituent_polygons g')"
    by (auto simp: extractable_def split: option.splits)
  from Cons show ?case
    by (simp add: extract_loop_step [OF g'] del: extract_loop.simps)
qed

lemma extract_loop_Inl:
  "extract_loop K feats rings = Inl e \<Longrightarrow> e = AttributeError \<or> e = TypeError poly_msg"
proof (induction feats arbitrary: rings)
  case Nil
  then show ?case by simp
next
  case (Cons feat feats)
  show ?case
  proof (cases "the_geometry feat")
    case None
    with Cons.prems show ?thesis by (simp add: extract_loop_none del: extract_loop.simps)
  next
    case (Some g)
    show ?thesis
    proof (cases "supported g")
      case True
      from extract_loop_supported [OF Some True, of K feats rings]
      consider "extract_loop K (feat # feats) rings = Inl AttributeError"
        | rings' where "extract_loop K (feat # feats) rings = extract_loop K feats rings'"
        by blast
      then show ?thesis
      proof cases
        case 1
        with Cons.prems show ?thesis by (simp del: extract_loop.simps)
      next
        case 2
        with Cons.prems have "extract_loop K feats rings' = Inl e"
          by (simp del: extract_loop.simps)
        then show ?thesis by (rule Cons.IH)
      qed
    next
      case False
      with Cons.prems Some show ?thesis by (simp add: extract_loop_bad del: extract_loop.simps)
    qed
  qed
qed

lemma extract_loop_TypeError:
  "extract_loop K feats rings = Inl (TypeError msg) \<Longrightarrow>
   \<exists>feat \<in> set feats. \<exists>g. the_geometry feat = Some g \<and> \<not> supported g"
proof (induction feats arbitrary: rings)
  case Nil
  then show ?case by simp
next
  case (Cons feat feats)
  show ?case
  proof (cases "the_geometry feat")
    case None
    with Cons.prems show ?thesis by (simp add: extract_loop_none del: extract_loop.simps)
  next
    case (Some g)
    show ?thesis
    proof (cases "supported g")
      case True
      from extract_loop_supported [OF Some True, of K feats rings]
      consider "extract_loop K (feat # feats) rings = Inl AttributeError"
        | rings' where "extract_loop K (feat # feats) rings = extract_loop K feats rings'"
        by blast
      then show ?thesis
      proof cases
        case 1
        with Cons.prems show ?thesis by (simp del: extract_loop.simps)
      next
        case 2
        with Cons.prems have "extract_loop K feats rings' = Inl (TypeError msg)"
          by (simp del: extract_loop.simps)
        from Cons.IH [OF this] show ?thesis by simp
      qed
    next
      case False
      with Some show ?thesis by simp
    qed
  qed
qed

lemma extract_loop_Inr:
  "extract_loop K feats rings = Inr r \<Longrightarrow>
   \<forall>feat \<in> set feats. \<exists>g. the_geometry feat = Some g \<and> supported g"
proof (induction feats arbitrary: rings)
  case Nil
  then show ?case by simp
next
  case (Cons feat feats)
  show ?case
  proof (cases "the_geometry feat")
    case None
    with Cons.prems show ?thesis by (simp add: extract_loop_none del: extract_loop.simps)
  next
    case (Some g)
    show ?thesis
    proof (cases "supported g")
      case True
      from extract_loop_supported [OF Some True, of K feats rings]
      consider "extract_loop K (feat # feats) rings = Inl AttributeError"
        | rings' where "extract_loop K (feat # feats) rings = extract_loop K feats rings'"
        by blast
      then show ?thesis
      proof cases
        case 1
        with Cons.prems show ?thesis by (simp del: extract_loop.simps)
      next
        case 2
        with Cons.prems have "extract_loop K feats rings' = Inr r"
          by (simp del: extract_loop.simps)
        from Cons.IH [OF this] Some True show ?thesis by simp
      qed
    next
      case False
      with Cons.prems Some show ?thesis by (simp add: extract_loop_bad del: extract_loop.simps)
    qed
  qed
qed

lemma set_map_filter_iff:
  "y \<in> set (List.map_filter f xs) \<longleftrightarrow> (\<exists>x \<in> set xs. f x = Some y)"
  by (induction xs) (auto split: option.splits)

lemma unsupported_iff:
  "unsupported df = (\<exists>feat \<in> set (iterrows df). \<exists>g. the_geometry feat = Some g \<and> \<not> supported g)"
  unfolding unsupported_def geometries_def list_ex_iff
  using set_map_filter_iff [of _ the_geometry "iterrows df"] by blast

lemma has_geometries_iff:
  "has_geometries df = (\<forall>feat \<in> set (iterrows df). the_geometry feat \<noteq> None)"
  by (simp add: has_geometries_def list_all_iff)

lemma extract_rings_extractable:
  "list_all (extractable K) (iterrows df) \<Longrightarrow>
   extract_rings K df = Inr (ring_sequence K (geometries df))"
  using extract_loop_extractable [of K "iterrows df" "[]"]
  by (simp add: extract_rings_def geometries_def)

lemma extract_rings_stops:
  assumes "iterrows df = pre @ feat # post"
    and "list_all (extractable K) pre" and "the_geometry feat = Some g" and "\<not> supported g"
  shows "extract_rings K df = Inl (TypeError poly_msg)"
  unfolding extract_rings_def assms(1) using assms(2-4) by (rule extract_loop_stops)

lemma extract_rings_TypeError:
  "extract_rings K df = Inl (TypeError msg) \<Longrightarrow> unsupported df"
  unfolding extract_rings_def unsupported_iff by (rule extract_loop_TypeError)

lemma extract_rings_Inr:
  "extract_rings K df = Inr r \<Longrightarrow> has_geometries df \<and> \<not> unsupported df"
  unfolding has_geometries_iff unsupported_iff extract_rings_def
  by (drule extract_loop_Inr) fastforce

lemma extract_rings_Inl:
  "extract_rings K df = Inl e \<Longrightarrow> e = AttributeError \<or> e = TypeError poly_msg"
  unfolding extract_rings_def by (rule extract_loop_Inl)

subsection \<open>The exceptions of every stage\<close>

text \<open>Which exceptions each stage of \<^verbatim>\<open>overlay\<close> can end with.\<close>

lemma union_rings_Inl:
  "(union_rings K rings1 rings2 = Inl x) =
   ((\<exists>e1. unary_union K [MultiLineString rings1, MultiLineString rings2] = Inl e1) \<and>
    (\<exists>e2. binary_union K (MultiLineString rings1) (MultiLineString rings2) = Inl e2 \<and>
          x = GeosError e2))"
  by (auto simp: union_rings_def Let_def split: sum.splits)

lemma union_rings_fast:
  "unary_union K [MultiLineString rings1, MultiLineString rings2] = Inr mm \<Longrightarrow>
   union_rings K rings1 rings2 = Inr mm"
  by (simp add: union_rings_def)

lemma union_rings_fallback:
  "unary_union K [MultiLineString rings1, MultiLineString rings2] = Inl e1 \<Longrightarrow>
   union_rings K rings1 rings2 =
     (case binary_union K (MultiLineString rings1) (MultiLineString rings2) of
        Inl e \<Rightarrow> Inl (GeosError e) | Inr mm \<Rightarrow> Inr mm)"
  by (simp add: union_rings_def split: sum.splits)

lemma first_hit_Inl:
  "first_hit K cent cands = Inl e \<Longrightarrow> e = KeyError \<or> e = AttributeError"
  by (induction cands) (auto split: option.splits if_splits)

lemma gather_Inl:
  "gather df1 df2 prop1 prop2 newpoly = Inl e \<Longrightarrow> e = LabelError (geometry_column_name df1)"
  unfolding gather_def Let_def
  by (auto simp: series_drop_def split: if_splits sum.splits)

lemma classify_Inl:
  "classify K df1 df2 how newpoly = Inl e \<Longrightarrow>
   e = KeyError \<or> e = AttributeError \<or> e = LabelError (geometry_column_name df1)"
  unfolding classify_def Let_def
  by (auto split: sum.splits prod.splits if_splits dest: first_hit_Inl gather_Inl)

lemma classify_loop_Inl:
  "classify_loop K df1 df2 how ps acc = Inl e \<Longrightarrow>
   e = KeyError \<or> e = AttributeError \<or> e = LabelError (geometry_column_name df1)"
proof (induction ps arbitrary: acc)
  case Nil
  then show ?case by simp
next
  case (Cons p ps)
  show ?case
  proof (cases "classify K df1 df2 how p")
    case (Inl e')
    with Cons.prems have "e' = e" by simp
    with classify_Inl [OF Inl] show ?thesis by simp
  next
    case (Inr r)
    with Cons.prems Cons.IH show ?thesis by (cases r) auto
  qed
qed

lemma clean_up_Inl:
  "clean_up collection = Inl e \<Longrightarrow> e = InvalidIndexError \<or> (\<exists>l. e = LabelError l)"
  unfolding clean_up_def
  by (auto simp: from_series_def reset_index_def drop_column_def Let_def
      split: sum.splits if_splits)

lemma merged_Inl:
  "merged K df1 df2 = Inl e \<Longrightarrow>
   e = AttributeError \<or> e = TypeError poly_msg \<or> (\<exists>x. e = GeosError x)"
  unfolding merged_def
  by (auto split: sum.splits dest: extract_rings_Inl simp: union_rings_Inl)

lemma merged_TypeError:
  "merged K df1 df2 = Inl (TypeError msg) \<Longrightarrow> unsupported df1 \<or> unsupported df2"
  unfolding merged_def
  by (auto split: sum.splits dest: extract_rings_TypeError simp: union_rings_Inl)

lemma overlay_Inl:
  "overlay K df1 df2 how = Inl e \<Longrightarrow>
     (how \<notin> set allowed_hows \<and> e = ValueError how) \<or>
     (how \<in> set allowed_hows \<and> merged K df1 df2 = Inl e) \<or>
     (how \<in> set allowed_hows \<and> (\<exists>mm. merged K df1 df2 = Inr mm) \<and>
        (e = KeyError \<or> e = AttributeError \<or> e = InvalidIndexError \<or> (\<exists>l. e = LabelError l)))"
  unfolding overlay_def
  by (auto split: sum.splits if_splits dest: classify_loop_Inl clean_up_Inl)

subsection \<open>From the rows to the result\<close>

text \<open>
  The clean-up keeps the cells of every column that all rows have, apart from
  \<^verbatim>\<open>index\<close>; so the geometry column of the result lists the included faces.
\<close>

lemma clean_up_Inr:
  "(clean_up collection :: error + ('c, 'a) frame) = Inr out \<Longrightarrow>
   \<exists>gdf gdf'. (from_series collection :: error + ('c, 'a) frame) = Inr gdf \<and>
      (reset_index gdf :: error + ('c, 'a) frame) = Inr gdf' \<and>
      (drop_column ''index'' gdf' :: error + ('c, 'a) frame) = Inr out"
  unfolding clean_up_def by (auto split: sum.splits)

lemma rows_from_series:
  "from_series collection = Inr gdf \<Longrightarrow> length (rows gdf) = length collection"
  by (auto simp: from_series_def Let_def split: if_splits)

lemma rows_reset:
  "reset_index gdf = Inr out \<Longrightarrow> length (rows out) = length (rows gdf)"
  by (auto simp: reset_index_def Let_def split: if_splits)

lemma rows_drop:
  "drop_column l gdf = Inr out \<Longrightarrow> length (rows out) = length (rows gdf)"
  by (auto simp: drop_column_def split: if_splits)

lemma clean_up_column:
  assumes "clean_up collection = Inr out"
    and "\<forall>s \<in> set collection. l \<in> fst ` set s" and "l \<noteq> ''index''"
  shows "column_cells l out = map (\<lambda>s. map_of s l) collection"
proof -
  from clean_up_Inr [OF assms(1)] obtain gdf gdf' where
    f: "from_series collection = Inr gdf" and r: "reset_index gdf = Inr gdf'" and
    d: "drop_column ''index'' gdf' = Inr out"
    by blast
  show ?thesis
  proof (cases "collection = []")
    case True
    with rows_from_series [OF f] rows_reset [OF r] rows_drop [OF d]
    show ?thesis by (simp add: column_cells_def)
  next
    case False
    then obtain s where "s \<in> set collection" by (cases collection) auto
    with assms(2) from_series_columns [OF f] have "l \<in> set (columns gdf)" by auto
    from column_cells_drop [OF d assms(3)] column_cells_reset [OF r this]
      column_cells_from_series [OF f assms(2)]
    show ?thesis by simp
  qed
qed

lemma clean_up_no_index:
  "clean_up collection = Inr out \<Longrightarrow> ''index'' \<notin> set (columns out)"
  by (auto dest!: clean_up_Inr columns_drop)

lemma clean_up_columns:
  assumes "(clean_up collection :: error + ('c, 'a) frame) = Inr out"
    and "(from_series collection :: error + ('c, 'a) frame) = Inr gdf"
  shows "columns out =
     (if ''index'' \<in> set (columns gdf) then ''level_0'' # filter (\<lambda>c. c \<noteq> ''index'') (columns gdf)
      else columns gdf)"
proof -
  from clean_up_Inr [OF assms(1)] assms(2) obtain gdf' where
    r: "reset_index gdf = Inr gdf'" and d: "drop_column ''index'' gdf' = Inr out"
    by auto
  from columns_reset [OF r] columns_drop [OF d] show ?thesis
    by (auto simp: filter_id_conv)
qed

lemma overlay_Inr:
  "overlay (K :: 'c shapely) df1 df2 how = Inr (out :: ('c, 'a) frame) \<Longrightarrow>
   how \<in> set allowed_hows \<and>
   (\<exists>mm collection. merged K df1 df2 = Inr mm \<and>
      classify_loop K df1 df2 how (polygonize K mm) [] = Inr collection \<and>
      (clean_up collection :: error + ('c, 'a) frame) = Inr out)"
  unfolding overlay_def by (auto split: sum.splits if_splits)

lemma overlay_faces:
  assumes "overlay (K :: 'c shapely) df1 df2 how = Inr (out :: ('c, 'a) frame)"
    and "merged K df1 df2 = Inr mm"
  shows "column_cells ''geometry'' out =
     map (\<lambda>p. Some (Geom (Polygon p)))
       (filter (\<lambda>p. decision_table how (df_hit K df1 p) (df_hit K df2 p)) (polygonize K mm))"
proof -
  from overlay_Inr [OF assms(1)] assms(2) obtain collection where
    loop: "classify_loop K df1 df2 how (polygonize K mm) [] = Inr collection" and
    clean: "(clean_up collection :: error + ('c, 'a) frame) = Inr out"
    by auto
  from classify_loop_acc [OF loop] have faces:
    "map (\<lambda>s. map_of s ''geometry'') collection =
     map (\<lambda>p. Some (Geom (Polygon p)))
       (filter (\<lambda>p. decision_table how (df_hit K df1 p) (df_hit K df2 p)) (polygonize K mm))"
    by simp
  have "''geometry'' \<in> fst ` set s" if "s \<in> set collection" for s
  proof -
    from that have "map_of s ''geometry'' \<in> set (map (\<lambda>s. map_of s ''geometry'') collection)"
      by simp
    then have "map_of s ''geometry'' \<noteq> None" unfolding faces by auto
    then show ?thesis by (simp add: map_of_eq_None_iff)
  qed
  then have "\<forall>s \<in> set collection. ''geometry'' \<in> fst ` set s" by blast
  from clean_up_column [OF clean this] faces show ?thesis by simp
qed

subsection \<open>Ring extraction over the store\<close>

text \<open>
  The function over the store computes what the function on the frame computes, and the
  store it returns is the given one with objects added at its end.
\<close>

lemma append_rings_st_eq:
  "append_rings_st K p rings h =
     (append_rings K p rings, if is_valid K p then h else h @ [buffer0 K p])"
  by (simp add: append_rings_st_def append_rings_def alloc_def Let_def split: geometry.splits)

lemma extract_geoms_st_eq:
  "\<exists>hy. extract_geoms_st K ps rings h = (extract_geoms K ps rings, h @ hy)"
proof (induction ps arbitrary: rings h)
  case Nil
  then show ?case by simp
next
  case (Cons p ps)
  let ?h = "if is_valid K p then h else h @ [buffer0 K p]"
  have grows: "\<exists>hx. ?h = h @ hx" by simp
  show ?case
  proof (cases "append_rings K p rings")
    case (Inl e)
    with grows show ?thesis by (simp add: append_rings_st_eq del: append_Nil2)
  next
    case (Inr rings')
    from Cons [of rings' ?h] obtain hy where
      "extract_geoms_st K ps rings' ?h = (extract_geoms K ps rings', ?h @ hy)"
      by blast
    with Inr have "extract_geoms_st K (p # ps) rings h = (extract_geoms K (p # ps) rings, ?h @ hy)"
      by (simp add: append_rings_st_eq)
    moreover from grows obtain hx where "?h = h @ hx" by blast
    ultimately have "extract_geoms_st K (p # ps) rings h =
        (extract_geoms K (p # ps) rings, h @ (hx @ hy))"
      by simp
    then show ?thesis by blast
  qed
qed

lemma extract_loop_st_eq:
  "\<forall>ref \<in> set refs. ref < length h0 \<Longrightarrow>
   map the_geometry feats = map (\<lambda>ref. Some (h0 ! ref)) refs \<Longrightarrow>
   \<exists>hy. extract_loop_st K refs rings (h0 @ hx) = (extract_loop K feats rings, (h0 @ hx) @ hy)"
proof (induction refs arbitrary: feats rings hx)
  case Nil
  then show ?case by simp
next
  case (Cons ref refs)
  from Cons.prems(2) obtain feat feats' where feats: "feats = feat # feats'"
    and feat: "the_geometry feat = Some (h0 ! ref)"
    and rest: "map the_geometry feats' = map (\<lambda>ref. Some (h0 ! ref)) refs"
    by (cases feats) auto
  from Cons.prems(1) have ref: "ref < length h0" and refs: "\<forall>ref \<in> set refs. ref < length h0"
    by auto
  note IH = Cons.IH [OF refs rest]
  from ref have read: "(h0 @ hx) ! ref = h0 ! ref" and inside: "\<not> length (h0 @ hx) \<le> ref"
    by (simp_all add: nth_append)
  show ?case
  proof (cases "h0 ! ref")
    case (Polygon p)
    let ?hz = "if is_valid K p then [] else [buffer0 K p]"
    have step: "append_rings_st K p rings (h0 @ hx) = (append_rings K p rings, (h0 @ hx) @ ?hz)"
      by (simp add: append_rings_st_eq)
    show ?thesis
    proof (cases "append_rings K p rings")
      case (Inl e)
      with Polygon read inside feat step have "extract_loop_st K (ref # refs) rings (h0 @ hx) =
          (extract_loop K (feat # feats') rings, (h0 @ hx) @ ?hz)"
        by (simp del: append_assoc)
      then show ?thesis unfolding feats by blast
    next
      case (Inr rings')
      from IH [of rings' "hx @ ?hz"] obtain hy where
        "extract_loop_st K refs rings' ((h0 @ hx) @ ?hz) =
           (extract_loop K feats' rings', ((h0 @ hx) @ ?hz) @ hy)"
        by auto
      with Inr Polygon read inside feat step have
        "extract_loop_st K (ref # refs) rings (h0 @ hx) =
          (extract_loop K (feat # feats') rings, (h0 @ hx) @ (?hz @ hy))"
        by (simp del: append_assoc)
      then show ?thesis unfolding feats by blast
    qed
  next
    case (MultiPolygon ps)
    from extract_geoms_st_eq [of K ps rings "h0 @ hx"] obtain hz where
      step: "extract_geoms_st K ps rings (h0 @ hx) = (extract_geoms K ps rings, (h0 @ hx) @ hz)"
      by blast
    show ?thesis
    proof (cases "extract_geoms K ps rings")
      case (Inl e)
      with MultiPolygon read inside feat step have
        "extract_loop_st K (ref # refs) rings (h0 @ hx) =
          (extract_loop K (feat # feats') rings, (h0 @ hx) @ hz)"
        by (simp del: append_assoc)
      then show ?thesis unfolding feats by blast
    next
      case (Inr rings')
      from IH [of rings' "hx @ hz"] obtain hy where
        "extract_loop_st K refs rings' ((h0 @ hx) @ hz) =
           (extract_loop K feats' rings', ((h0 @ hx) @ hz) @ hy)"
        by auto
      with Inr MultiPolygon read inside feat step have
        "extract_loop_st K (ref # refs) rings (h0 @ hx) =
          (extract_loop K (feat # feats') rings, (h0 @ hx) @ (hz @ hy))"
        by (simp del: append_assoc)
      then show ?thesis unfolding feats by blast
    qed
  qed (use read inside feat feats in simp_all)
qed

lemma extract_rings_st_eq:
  assumes "stored_in df refs h"
  shows "\<exists>hy. extract_rings_st K refs (h @ hx) = (extract_rings K df, (h @ hx) @ hy)"
  using assms extract_loop_st_eq [of refs h "iterrows df" K "[]" hx]
  by (simp add: stored_in_def list_all_iff extract_rings_st_def extract_rings_def)

lemma extract_twice:
  assumes "stored_in df refs h"
    and "extract_rings_st K refs h = (result, h')"
    and "extract_rings_st K refs h' = (result', h'')"
  shows "result = extract_rings K df \<and> result' = result \<and>
         take (length h) h' = h \<and> take (length h) h'' = h"
proof -
  from extract_rings_st_eq [OF assms(1), of K "[]"] assms(2)
  obtain hy where 1: "result = extract_rings K df" "h' = h @ hy" by auto
  from extract_rings_st_eq [OF assms(1), of K hy] assms(3) 1
  obtain hz where 2: "result' = extract_rings K df" "h'' = (h @ hy) @ hz" by auto
  from 1 2 show ?thesis by simp
qed

lemma extract_geoms_st_valid:
  "list_all (is_valid K) ps \<Longrightarrow> extract_geoms_st K ps rings h = (extract_geoms K ps rings, h)"
  by (induction ps arbitrary: rings) (auto simp: append_rings_st_eq split: sum.splits)

lemma extract_loop_st_valid:
  "list_all (\<lambda>ref. list_all (is_valid K) (constituent_polygons (h ! ref))) refs \<Longrightarrow>
   snd (extract_loop_st K refs rings h) = h"
proof (induction refs arbitrary: rings)
  case Nil
  then show ?case by simp
next
  case (Cons ref refs)
  then have IH: "snd (extract_loop_st K refs rings' h) = h" for rings'
    by simp
  from Cons.prems have valid: "list_all (is_valid K) (constituent_polygons (h ! ref))"
    by simp
  show ?case
  proof (cases "h ! ref")
    case (Polygon p)
    with valid IH show ?thesis by (simp add: append_rings_st_eq split: sum.splits)
  next
    case (MultiPolygon ps)
    with valid IH show ?thesis by (simp add: extract_geoms_st_valid split: sum.splits)
  qed simp_all
qed

lemma filter_absent:
  "l2 \<notin> fst ` set (filter (\<lambda>kv. fst kv \<noteq> l1) s) \<Longrightarrow>
   filter (\<lambda>kv. fst kv \<noteq> l1 \<and> fst kv \<noteq> l2) s = filter (\<lambda>kv. fst kv \<noteq> l1) s"
  by (induction s) (auto split: if_splits)

section \<open>The claims\<close>

text \<open>
  Claim C1. Whenever \<^verbatim>\<open>overlay\<close> returns a frame, the faces in its geometry column are,
  in the order of recovery, exactly the recovered faces for which the decision table of
  the specification holds at the two flags of the face and the requested relation; and the
  flag \<^verbatim>\<open>hit\<close> of the code is the table, a function of the two flags and the relation
  alone.
\<close>

theorem overlay_includes_by_decision_table:
  assumes "overlay K df1 df2 how = Inr out" and "merged K df1 df2 = Inr mm"
  shows "hit how df1_hit df2_hit = decision_table how df1_hit df2_hit \<and>
     column_cells ''geometry'' out =
       map (\<lambda>p. Some (Geom (Polygon p)))
         (filter (\<lambda>p. decision_table how (df_hit K df1 p) (df_hit K df2 p)) (polygonize K mm))"
  using overlay_faces [OF assms] hit_table by blast

theorem overlay_includes_by_decision_table_witness:
  "overlay squares_kernel layer1 layer2 ''difference'' =
     Inr \<lparr>columns = [''name'', ''kind'', ''geometry''], geometry_column_name = ''geometry'',
          rows = [[Val ''A'', Null, Geom (Polygon face_left)]]\<rparr> \<and>
   merged squares_kernel layer1 layer2 =
     Inr (GeometryCollection [MultiLineString [exterior (square 0 4)],
                              MultiLineString [exterior (square 2 6)]]) \<and>
   hit ''difference'' True False = decision_table ''difference'' True False \<and>
   column_cells ''geometry''
     \<lparr>columns = [''name'', ''kind'', ''geometry''], geometry_column_name = ''geometry'',
      rows = [[Val ''A'', Null, Geom (Polygon face_left)]]\<rparr> =
     [Some (Geom (Polygon face_left))]"
proof -
  let ?out = "\<lparr>columns = [''name'', ''kind'', ''geometry''], geometry_column_name = ''geometry'',
      rows = [[Val ''A'', Null, Geom (Polygon face_left)]]\<rparr>"
  let ?mm = "GeometryCollection [MultiLineString [exterior (square 0 4)],
                              MultiLineString [exterior (square 2 6)]]"
  have a: "overlay squares_kernel layer1 layer2 ''difference'' = Inr ?out"
    by code_simp
  have b: "merged squares_kernel layer1 layer2 = Inr ?mm"
    by code_simp
  have c: "map (\<lambda>p. Some (Geom (Polygon p)))
         (filter (\<lambda>p. decision_table ''difference'' (df_hit squares_kernel layer1 p)
            (df_hit squares_kernel layer2 p)) (polygonize squares_kernel ?mm)) =
        [Some (Geom (Polygon face_left) :: (coord, string) cell)]"
    by code_simp
  from overlay_includes_by_decision_table [OF a b, of True False] a b c
  show ?thesis by simp
qed

text \<open>
  Claim C2. On layers whose features all have a geometry, the scan of a layer returns the
  first row, in collection order, that matches the probe point of the face, with the flag
  set, and no row with the flag cleared when none matches. In the output row of an
  included face that no feature of layer 1 matched, the entry that layer 1 contributes
  for each of its attribute columns is null; the same holds for layer 2. (An attribute
  column is one that is neither named \<^verbatim>\<open>geometry\<close> nor the geometry column of a layer;
  when both layers have a column of the same name, the first entry of that name is the
  one of layer 1 and the last the one of layer 2.)
\<close>

theorem classifier_first_match_and_null_fill:
  assumes "has_geometries df1" and "has_geometries df2"
  shows "first_hit K (representative_point K newpoly) (iterrows df1) =
       Inr (find (is_match K (representative_point K newpoly)) (iterrows df1) \<noteq> None,
            find (is_match K (representative_point K newpoly)) (iterrows df1)) \<and>
     first_hit K (representative_point K newpoly) (iterrows df2) =
       Inr (find (is_match K (representative_point K newpoly)) (iterrows df2) \<noteq> None,
            find (is_match K (representative_point K newpoly)) (iterrows df2)) \<and>
     (classify K df1 df2 how newpoly = Inr (Some out) \<longrightarrow>
      c \<noteq> ''geometry'' \<longrightarrow> c \<noteq> geometry_column_name df1 \<longrightarrow> c \<noteq> geometry_column_name df2 \<longrightarrow>
        (\<not> df_hit K df1 newpoly \<longrightarrow> c \<in> set (columns df1) \<longrightarrow>
           (\<exists>rest. labelled c out = Null # rest)) \<and>
        (\<not> df_hit K df2 newpoly \<longrightarrow> c \<in> set (columns df2) \<longrightarrow>
           (\<exists>rest. labelled c out = rest @ [Null])))"
proof -
  let ?cent = "representative_point K newpoly"
  from assms have g1: "\<forall>cand \<in> set (iterrows df1). the_geometry cand \<noteq> None"
    and g2: "\<forall>cand \<in> set (iterrows df2). the_geometry cand \<noteq> None"
    by (simp_all add: has_geometries_iff)
  note scan1 = first_hit_find [OF g1, of K ?cent] and scan2 = first_hit_find [OF g2, of K ?cent]
  have fill: "(\<not> df_hit K df1 newpoly \<longrightarrow> c \<in> set (columns df1) \<longrightarrow>
           (\<exists>rest. labelled c out = Null # rest)) \<and>
        (\<not> df_hit K df2 newpoly \<longrightarrow> c \<in> set (columns df2) \<longrightarrow>
           (\<exists>rest. labelled c out = rest @ [Null]))"
    if included: "classify K df1 df2 how newpoly = Inr (Some out)"
      and c: "c \<noteq> ''geometry''" "c \<noteq> geometry_column_name df1" "c \<noteq> geometry_column_name df2"
  proof -
    let ?prop1 = "find (is_match K ?cent) (iterrows df1)"
    let ?prop2 = "find (is_match K ?cent) (iterrows df2)"
    from included have gathered: "gather df1 df2 ?prop1 ?prop2 newpoly = Inr out"
      unfolding classify_def Let_def scan1 scan2
      by (simp split: if_splits sum.splits)
    note parts = gather_labelled [OF gathered c]
    have hit1: "df_hit K df1 newpoly = (?prop1 \<noteq> None)"
      and hit2: "df_hit K df2 newpoly = (?prop2 \<noteq> None)"
      by (simp_all add: df_hit_def scan1 scan2)
    show ?thesis
      unfolding hit1 hit2 parts
      by (auto simp: or_nulls_def labelled_null_series)
  qed
  from scan1 scan2 fill show ?thesis by blast
qed

theorem classifier_first_match_and_null_fill_witness:
  "has_geometries layer1 \<and> has_geometries layer2 \<and>
   first_hit squares_kernel (representative_point squares_kernel face_right) (iterrows layer2) =
     Inr (True, Some [(''kind'', Val ''B''), (''geometry'', Geom (Polygon (square 2 6)))]) \<and>
   classify squares_kernel layer1 layer2 ''union'' face_right =
     Inr (Some [(''name'', Null), (''kind'', Val ''B''), (''geometry'', Geom (Polygon face_right))]) \<and>
   \<not> df_hit squares_kernel layer1 face_right \<and> ''name'' \<in> set (columns layer1) \<and>
   (\<exists>rest. labelled ''name''
      [(''name'', Null), (''kind'', Val ''B''), (''geometry'', Geom (Polygon face_right))] =
      (Null :: (coord, string) cell) # rest) \<and>
   classify squares_kernel layer1 layer2 ''union'' face_left =
     Inr (Some [(''name'', Val ''A''), (''kind'', Null), (''geometry'', Geom (Polygon face_left))]) \<and>
   \<not> df_hit squares_kernel layer2 face_left \<and> ''kind'' \<in> set (columns layer2) \<and>
   (\<exists>rest. labelled ''kind''
      [(''name'', Val ''A''), (''kind'', Null), (''geometry'', Geom (Polygon face_left))] =
      rest @ [Null :: (coord, string) cell])"
proof -
  let ?out = "[(''name'', Null), (''kind'', Val ''B''), (''geometry'', Geom (Polygon face_right))]
     :: (coord, string) series"
  let ?out' = "[(''name'', Val ''A''), (''kind'', Null), (''geometry'', Geom (Polygon face_left))]
     :: (coord, string) series"
  have a: "has_geometries layer1"
    by code_simp
  have b: "has_geometries layer2"
    by code_simp
  have c: "classify squares_kernel layer1 layer2 ''union'' face_right = Inr (Some ?out)"
    by code_simp
  have d: "\<not> df_hit squares_kernel layer1 face_right"
    by code_simp
  have e: "''name'' \<in> set (columns layer1)" "''name'' \<noteq> ''geometry''"
    "''name'' \<noteq> geometry_column_name layer1" "''name'' \<noteq> geometry_column_name layer2"
    by (simp_all add: layer1_def layer2_def)
  have f: "find (is_match squares_kernel (representative_point squares_kernel face_right))
      (iterrows layer2) = Some [(''kind'', Val ''B''), (''geometry'', Geom (Polygon (square 2 6)))]"
    by code_simp
  have c': "classify squares_kernel layer1 layer2 ''union'' face_left = Inr (Some ?out')"
    by code_simp
  have d': "\<not> df_hit squares_kernel layer2 face_left"
    by code_simp
  have e': "''kind'' \<in> set (columns layer2)" "''kind'' \<noteq> ''geometry''"
    "''kind'' \<noteq> geometry_column_name layer1" "''kind'' \<noteq> geometry_column_name layer2"
    by (simp_all add: layer1_def layer2_def)
  from classifier_first_match_and_null_fill
      [OF a b, of squares_kernel face_right "''union''" ?out "''name''"]
    a b c d e f
  have right: "first_hit squares_kernel (representative_point squares_kernel face_right)
       (iterrows layer2) =
       Inr (True, Some [(''kind'', Val ''B''), (''geometry'', Geom (Polygon (square 2 6)))]) \<and>
     (\<exists>rest. labelled ''name'' ?out = Null # rest)"
    by simp
  from classifier_first_match_and_null_fill
      [OF a b, of squares_kernel face_left "''union''" ?out' "''kind''"]
    c' d' e'
  have left: "\<exists>rest. labelled ''kind'' ?out' = rest @ [Null]"
    by simp
  from a b c d e(1) c' d' e'(1) right left show ?thesis by blast
qed

text \<open>
  Claim C3. For a relation in \<^verbatim>\<open>allowed_hows\<close> the result of \<^verbatim>\<open>overlay\<close> is never the
  exception of line 58. For any other relation the result is that exception, whatever
  the two layers and the kernel are: nothing of them is read before it is raised.
\<close>

theorem invalid_relation_only_for_unknown_how:
  "(how \<in> set allowed_hows \<longrightarrow> overlay K df1 df2 how \<noteq> Inl (ValueError h)) \<and>
   (how \<notin> set allowed_hows \<longrightarrow> overlay K df1 df2 how = Inl (ValueError how))"
proof (cases "how \<in> set allowed_hows")
  case True
  have "overlay K df1 df2 how \<noteq> Inl (ValueError h)"
  proof
    assume "overlay K df1 df2 how = Inl (ValueError h)"
    from overlay_Inl [OF this] True show False
      by (auto dest: merged_Inl)
  qed
  with True show ?thesis by simp
next
  case False
  then show ?thesis by (simp add: overlay_def)
qed

theorem invalid_relation_only_for_unknown_how_witness:
  "''identity'' \<in> set allowed_hows \<and>
   overlay squares_kernel layer1 layer2 ''identity'' \<noteq> Inl (ValueError ''identity'') \<and>
   ''erase'' \<notin> set allowed_hows \<and>
   overlay squares_kernel layer1 layer2 ''erase'' = Inl (ValueError ''erase'')"
proof -
  have a: "''identity'' \<in> set allowed_hows" and b: "''erase'' \<notin> set allowed_hows"
    by (simp_all add: allowed_hows_def)
  from invalid_relation_only_for_unknown_how [of "''identity''" squares_kernel layer1 layer2 "''identity''"]
    invalid_relation_only_for_unknown_how [of "''erase''" squares_kernel layer1 layer2 "''erase''"] a b
  show ?thesis by blast
qed

text \<open>
  Claim C4. Let the relation be an allowed one. When a feature has a geometry that is
  neither a polygon nor a multi-polygon and every feature that is processed before it
  (the features of layer 1 in order, then those of layer 2) is extractable, ring
  extraction raises the TypeError of line 24 and \<^verbatim>\<open>overlay\<close> ends with it in place of a
  frame. When all geometries of both layers are polygons or multi-polygons, valid or
  not, \<^verbatim>\<open>overlay\<close> never ends with a TypeError.
\<close>

theorem unsupported_geometry_type:
  assumes "how \<in> set allowed_hows"
    and "list_all (extractable K) pre" and "the_geometry feat = Some g" and "\<not> supported g"
  shows "(iterrows df1 = pre @ feat # post \<longrightarrow>
        extract_rings K df1 = Inl (TypeError poly_msg) \<and>
        overlay K df1 df2 how = Inl (TypeError poly_msg)) \<and>
     (list_all (extractable K) (iterrows df1) \<longrightarrow> iterrows df2 = pre @ feat # post \<longrightarrow>
        extract_rings K df2 = Inl (TypeError poly_msg) \<and>
        overlay K df1 df2 how = Inl (TypeError poly_msg)) \<and>
     (\<not> unsupported df1 \<longrightarrow> \<not> unsupported df2 \<longrightarrow> overlay K df1 df2 how \<noteq> Inl (TypeError msg))"
proof -
  have first: "extract_rings K df1 = Inl (TypeError poly_msg) \<and>
      overlay K df1 df2 how = Inl (TypeError poly_msg)"
    if rows: "iterrows df1 = pre @ feat # post"
  proof -
    from extract_rings_stops [OF rows assms(2-4)]
    have "extract_rings K df1 = Inl (TypeError poly_msg)" .
    with assms(1) show ?thesis by (simp add: overlay_def merged_def)
  qed
  have second: "extract_rings K df2 = Inl (TypeError poly_msg) \<and>
      overlay K df1 df2 how = Inl (TypeError poly_msg)"
    if good: "list_all (extractable K) (iterrows df1)" and rows: "iterrows df2 = pre @ feat # post"
  proof -
    from extract_rings_stops [OF rows assms(2-4)]
    have "extract_rings K df2 = Inl (TypeError poly_msg)" .
    with assms(1) extract_rings_extractable [OF good] show ?thesis
      by (simp add: overlay_def merged_def)
  qed
  have never: "overlay K df1 df2 how \<noteq> Inl (TypeError msg)"
    if "\<not> unsupported df1" "\<not> unsupported df2"
  proof
    assume "overlay K df1 df2 how = Inl (TypeError msg)"
    from overlay_Inl [OF this] have "merged K df1 df2 = Inl (TypeError msg)"
      by auto
    from merged_TypeError [OF this] that show False by simp
  qed
  from first second never show ?thesis by blast
qed

theorem unsupported_geometry_type_witness:
  "''union'' \<in> set allowed_hows \<and>
   list_all (extractable squares_kernel)
     ([[(''kind'', Val ''B''), (''geometry'', Geom (Polygon (square 2 6)))]]
        :: (coord, string) series list) \<and>
   the_geometry
     ([(''kind'', Val ''P''), (''geometry'', Geom (Point (3, 3)))] :: (coord, string) series) =
     Some (Point (3, 3)) \<and>
   \<not> supported (Point (3, 3) :: coord geometry) \<and>
   iterrows (layer2\<lparr>rows := [[Val ''B'', Geom (Polygon (square 2 6))],
                               [Val ''P'', Geom (Point (3, 3))]]\<rparr>) =
     [[(''kind'', Val ''B''), (''geometry'', Geom (Polygon (square 2 6)))]] @
     [(''kind'', Val ''P''), (''geometry'', Geom (Point (3, 3)))] # [] \<and>
   extract_rings squares_kernel
     (layer2\<lparr>rows := [[Val ''B'', Geom (Polygon (square 2 6))],
                       [Val ''P'', Geom (Point (3, 3))]]\<rparr>) = Inl (TypeError poly_msg) \<and>
   overlay squares_kernel
     (layer2\<lparr>rows := [[Val ''B'', Geom (Polygon (square 2 6))],
                       [Val ''P'', Geom (Point (3, 3))]]\<rparr>) layer1 ''union'' =
     Inl (TypeError poly_msg) \<and>
   list_all (extractable squares_kernel) (iterrows layer1) \<and>
   overlay squares_kernel layer1
     (layer2\<lparr>rows := [[Val ''B'', Geom (Polygon (square 2 6))],
                       [Val ''P'', Geom (Point (3, 3))]]\<rparr>) ''union'' =
     Inl (TypeError poly_msg) \<and>
   \<not> unsupported layer1 \<and> \<not> unsupported layer2 \<and>
   overlay squares_kernel layer1 layer2 ''union'' \<noteq> Inl (TypeError poly_msg)"
proof -
  let ?mixed = "layer2\<lparr>rows := [[Val ''B'', Geom (Polygon (square 2 6))],
                               [Val ''P'', Geom (Point (3, 3))]]\<rparr>"
  let ?pre = "[[(''kind'', Val ''B''), (''geometry'', Geom (Polygon (square 2 6)))]]
     :: (coord, string) series list"
  let ?feat = "[(''kind'', Val ''P''), (''geometry'', Geom (Point (3, 3)))] :: (coord, string) series"
  have a: "''union'' \<in> set allowed_hows"
    by (simp add: allowed_hows_def)
  have b: "list_all (extractable squares_kernel) ?pre"
    by code_simp
  have c: "the_geometry ?feat = Some (Point (3, 3))"
    by code_simp
  have d: "\<not> supported (Point (3, 3) :: coord geometry)"
    by code_simp
  have e: "iterrows ?mixed = ?pre @ ?feat # []"
    by code_simp
  have f: "list_all (extractable squares_kernel) (iterrows layer1)"
    by code_simp
  have g: "\<not> unsupported layer1"
    by code_simp
  have h: "\<not> unsupported layer2"
    by code_simp
  from unsupported_geometry_type [OF a b c d, where ?df1.0 = ?mixed and post = "[]" and ?df2.0 = layer1]
    unsupported_geometry_type [OF a b c d, where ?df1.0 = layer1 and post = "[]" and ?df2.0 = ?mixed]
    unsupported_geometry_type [OF a b c d, where ?df1.0 = layer1 and ?df2.0 = layer2 and msg = poly_msg]
    a b c d e f g h
  show ?thesis by blast
qed

text \<open>
  Without these conditions the TypeError is not what \<^verbatim>\<open>overlay\<close> ends with: a feature
  without geometry before the point raises at line 23, and an unknown relation raises
  at line 58 before any feature is read.
\<close>

theorem unsupported_geometry_type_counterexample:
  "unsupported (layer1\<lparr>rows := [[Val ''N'', Null], [Val ''P'', Geom (Point (3, 3))]]\<rparr>) \<and>
   ''union'' \<in> set allowed_hows \<and>
   overlay squares_kernel
     (layer1\<lparr>rows := [[Val ''N'', Null], [Val ''P'', Geom (Point (3, 3))]]\<rparr>) layer2 ''union'' =
     Inl AttributeError \<and>
   unsupported (layer2\<lparr>rows := [[Val ''P'', Geom (Point (3, 3))]]\<rparr>) \<and>
   overlay squares_kernel layer1 (layer2\<lparr>rows := [[Val ''P'', Geom (Point (3, 3))]]\<rparr>) ''erase'' =
     Inl (ValueError ''erase'')"
  by code_simp

text \<open>
  Claim C5. After both ring extractions have succeeded, \<^verbatim>\<open>overlay\<close> ends with an
  exception of a union exactly when the fast union raised and the slow union raised too,
  and the exception is then the one of the slow union. Whenever the fast union raises,
  the merged network is what the slow union returns.
\<close>

theorem union_failure_only_after_fallback:
  assumes "how \<in> set allowed_hows"
    and "extract_rings K df1 = Inr rings1" and "extract_rings K df2 = Inr rings2"
  shows "(overlay K df1 df2 how = Inl (GeosError e) \<longleftrightarrow>
        (\<exists>e1. unary_union K [MultiLineString rings1, MultiLineString rings2] = Inl e1) \<and>
        binary_union K (MultiLineString rings1) (MultiLineString rings2) = Inl e) \<and>
     (unary_union K [MultiLineString rings1, MultiLineString rings2] = Inl e1 \<longrightarrow>
        merged K df1 df2 =
          (case binary_union K (MultiLineString rings1) (MultiLineString rings2) of
             Inl e2 \<Rightarrow> Inl (GeosError e2)
           | Inr mm \<Rightarrow> Inr mm))"
proof -
  from assms(2,3) have m: "merged K df1 df2 = union_rings K rings1 rings2"
    by (simp add: merged_def)
  have "overlay K df1 df2 how = Inl (GeosError e) \<longleftrightarrow> merged K df1 df2 = Inl (GeosError e)"
  proof
    assume "overlay K df1 df2 how = Inl (GeosError e)"
    from overlay_Inl [OF this] show "merged K df1 df2 = Inl (GeosError e)" by auto
  next
    assume "merged K df1 df2 = Inl (GeosError e)"
    with assms(1) show "overlay K df1 df2 how = Inl (GeosError e)" by (simp add: overlay_def)
  qed
  then have "overlay K df1 df2 how = Inl (GeosError e) \<longleftrightarrow>
        (\<exists>e1. unary_union K [MultiLineString rings1, MultiLineString rings2] = Inl e1) \<and>
        binary_union K (MultiLineString rings1) (MultiLineString rings2) = Inl e"
    unfolding m union_rings_Inl by auto
  moreover have "unary_union K [MultiLineString rings1, MultiLineString rings2] = Inl e1 \<longrightarrow>
        merged K df1 df2 =
          (case binary_union K (MultiLineString rings1) (MultiLineString rings2) of
             Inl e2 \<Rightarrow> Inl (GeosError e2)
           | Inr mm \<Rightarrow> Inr mm)"
    unfolding m by (simp add: union_rings_fallback)
  ultimately show ?thesis by blast
qed

theorem union_failure_only_after_fallback_witness:
  "''union'' \<in> set allowed_hows \<and>
   extract_rings (squares_kernel\<lparr>unary_union := \<lambda>gs. Inl ''TopologyException''\<rparr>) layer1 =
     Inr [exterior (square 0 4)] \<and>
   extract_rings (squares_kernel\<lparr>unary_union := \<lambda>gs. Inl ''TopologyException''\<rparr>) layer2 =
     Inr [exterior (square 2 6)] \<and>
   unary_union (squares_kernel\<lparr>unary_union := \<lambda>gs. Inl ''TopologyException''\<rparr>)
     [MultiLineString [exterior (square 0 4)], MultiLineString [exterior (square 2 6)]] =
     Inl ''TopologyException'' \<and>
   merged (squares_kernel\<lparr>unary_union := \<lambda>gs. Inl ''TopologyException''\<rparr>) layer1 layer2 =
     Inr (GeometryCollection
           [MultiLineString [exterior (square 0 4)], MultiLineString [exterior (square 2 6)]]) \<and>
   overlay (squares_kernel\<lparr>unary_union := \<lambda>gs. Inl ''TopologyException''\<rparr>) layer1 layer2 ''union''
     \<noteq> Inl (GeosError ''TopologyException'')"
proof -
  let ?K = "squares_kernel\<lparr>unary_union := \<lambda>gs. Inl ''TopologyException''\<rparr>"
  have a: "''union'' \<in> set allowed_hows"
    by (simp add: allowed_hows_def)
  have b: "extract_rings ?K layer1 = Inr [exterior (square 0 4)]"
    by code_simp
  have c: "extract_rings ?K layer2 = Inr [exterior (square 2 6)]"
    by code_simp
  have d: "unary_union ?K
      [MultiLineString [exterior (square 0 4)], MultiLineString [exterior (square 2 6)]] =
      Inl ''TopologyException''"
    by simp
  have e: "binary_union ?K (MultiLineString [exterior (square 0 4)])
      (MultiLineString [exterior (square 2 6)]) =
      Inr (GeometryCollection
           [MultiLineString [exterior (square 0 4)], MultiLineString [exterior (square 2 6)]])"
    by (simp add: squares_kernel_def)
  from union_failure_only_after_fallback [OF a b c, of "''TopologyException''" "''TopologyException''"]
    a b c d e
  show ?thesis by simp
qed

text \<open>
  Claim C6. The claim is that \<^verbatim>\<open>_extract_rings\<close> returns, for every frame of polygons
  and multi-polygons, the rings of the repaired polygons. It does when every repair is a
  polygon (\<open>extract_rings_extractable\<close>). It does not on \<open>bowtie_layer\<close>: the one
  feature has a polygon as geometry, the polygon is invalid, its \<^verbatim>\<open>buffer(0)\<close> is a
  multi-polygon, and line 37 raises AttributeError where the rings of the two triangles
  are due.
\<close>

theorem extract_rings_fails_on_bowtie:
  "has_geometries bowtie_layer \<and> \<not> unsupported bowtie_layer \<and>
   geometries bowtie_layer = [Polygon bowtie] \<and>
   \<not> is_valid squares_kernel bowtie \<and>
   buffer0 squares_kernel bowtie = MultiPolygon bowtie_halves \<and>
   extract_rings squares_kernel bowtie_layer = Inl AttributeError"
  by code_simp

text \<open>
  Claim C7. On the same two layers and the same kernel, so that the recovered faces and the
  two flags of every face are the same, the flag \<^verbatim>\<open>hit\<close> under
  \<^verbatim>\<open>symmetric_difference\<close> is the negation of the flag under \<^verbatim>\<open>intersection\<close>, and the
  faces in the result of \<^verbatim>\<open>symmetric_difference\<close> are the recovered faces that are not
  in the result of \<^verbatim>\<open>intersection\<close>.
\<close>

theorem symmetric_difference_complements_intersection:
  assumes "overlay K df1 df2 ''symmetric_difference'' = Inr sd"
    and "overlay K df1 df2 ''intersection'' = Inr isect"
    and "merged K df1 df2 = Inr mm"
  shows "hit ''symmetric_difference'' df1_hit df2_hit = (\<not> hit ''intersection'' df1_hit df2_hit) \<and>
     set (column_cells ''geometry'' sd) =
       (\<lambda>p. Some (Geom (Polygon p))) ` set (polygonize K mm) - set (column_cells ''geometry'' isect)"
proof -
  have flags: "hit ''symmetric_difference'' df1_hit df2_hit = (\<not> hit ''intersection'' df1_hit df2_hit)"
    by (simp add: hit_def)
  have t1: "decision_table ''symmetric_difference'' a b = (\<not> (a \<and> b))"
    and t2: "decision_table ''intersection'' a b = (a \<and> b)" for a b
    by (simp_all add: decision_table_def)
  have inj: "inj (\<lambda>p :: 'a polygon. Some (Geom (Polygon p) :: ('a, 'b) cell))"
    by (simp add: inj_on_def)
  show ?thesis
    unfolding overlay_faces [OF assms(1,3)] overlay_faces [OF assms(2,3)] t1 t2
    using flags inj by (auto simp: inj_eq)
qed

theorem symmetric_difference_complements_intersection_witness:
  "overlay squares_kernel layer1 layer2 ''symmetric_difference'' =
     Inr \<lparr>columns = [''name'', ''kind'', ''geometry''], geometry_column_name = ''geometry'',
          rows = [[Val ''A'', Null, Geom (Polygon face_left)],
                  [Null, Val ''B'', Geom (Polygon face_right)]]\<rparr> \<and>
   overlay squares_kernel layer1 layer2 ''intersection'' =
     Inr \<lparr>columns = [''name'', ''kind'', ''geometry''], geometry_column_name = ''geometry'',
          rows = [[Val ''A'', Val ''B'', Geom (Polygon face_both)]]\<rparr> \<and>
   merged squares_kernel layer1 layer2 =
     Inr (GeometryCollection [MultiLineString [exterior (square 0 4)],
                              MultiLineString [exterior (square 2 6)]]) \<and>
   hit ''symmetric_difference'' True True = (\<not> hit ''intersection'' True True) \<and>
   set (column_cells ''geometry''
     \<lparr>columns = [''name'', ''kind'', ''geometry''], geometry_column_name = ''geometry'',
      rows = [[Val ''A'', Null, Geom (Polygon face_left)],
              [Null, Val ''B'', Geom (Polygon face_right)]]\<rparr>) =
   (\<lambda>p. Some (Geom (Polygon p))) ` set [face_left, face_both, face_right] -
   set (column_cells ''geometry''
     \<lparr>columns = [''name'', ''kind'', ''geometry''], geometry_column_name = ''geometry'',
      rows = [[Val ''A'', Val ''B'', Geom (Polygon face_both) :: (coord, string) cell]]\<rparr>)"
proof -
  let ?sd = "\<lparr>columns = [''name'', ''kind'', ''geometry''], geometry_column_name = ''geometry'',
          rows = [[Val ''A'', Null, Geom (Polygon face_left)],
                  [Null, Val ''B'', Geom (Polygon face_right)]]\<rparr>"
  let ?isect = "\<lparr>columns = [''name'', ''kind'', ''geometry''], geometry_column_name = ''geometry'',
          rows = [[Val ''A'', Val ''B'', Geom (Polygon face_both)]]\<rparr>"
  let ?mm = "GeometryCollection [MultiLineString [exterior (square 0 4)],
                              MultiLineString [exterior (square 2 6)]]"
  have a: "overlay squares_kernel layer1 layer2 ''symmetric_difference'' = Inr ?sd"
    by code_simp
  have b: "overlay squares_kernel layer1 layer2 ''intersection'' = Inr ?isect"
    by code_simp
  have c: "merged squares_kernel layer1 layer2 = Inr ?mm"
    by code_simp
  have d: "polygonize squares_kernel ?mm = [face_left, face_both, face_right]"
    by (simp add: squares_kernel_def)
  from symmetric_difference_complements_intersection [OF a b c, of True True] a b c
  show ?thesis unfolding d by simp
qed

text \<open>
  Claim C8. When the concatenated row has an entry named as the geometry column of
  layer 1, the output row is the concatenated row without the entries named as the
  geometry column of either layer, with the face under \<^verbatim>\<open>geometry\<close>. When the name of
  the geometry column of layer 2 is absent after the first \<^verbatim>\<open>drop\<close> (as when both layers
  use the same name), the output row is still produced: it is the row after the first
  \<^verbatim>\<open>drop\<close>, with the face under \<^verbatim>\<open>geometry\<close>.
\<close>

theorem gather_drops_both_geometry_columns:
  assumes "geometry_column_name df1 \<in>
      fst ` set (or_nulls (columns df1) prop1 @ or_nulls (columns df2) prop2)"
  shows "gather df1 df2 prop1 prop2 newpoly =
       Inr (series_setitem ''geometry'' (Geom (Polygon newpoly))
             (filter (\<lambda>kv. fst kv \<noteq> geometry_column_name df1 \<and>
                           fst kv \<noteq> geometry_column_name df2)
                (or_nulls (columns df1) prop1 @ or_nulls (columns df2) prop2))) \<and>
     (geometry_column_name df2 \<notin>
        fst ` set (filter (\<lambda>kv. fst kv \<noteq> geometry_column_name df1)
                    (or_nulls (columns df1) prop1 @ or_nulls (columns df2) prop2)) \<longrightarrow>
      gather df1 df2 prop1 prop2 newpoly =
        Inr (series_setitem ''geometry'' (Geom (Polygon newpoly))
              (filter (\<lambda>kv. fst kv \<noteq> geometry_column_name df1)
                 (or_nulls (columns df1) prop1 @ or_nulls (columns df2) prop2))))"
proof -
  let ?s = "or_nulls (columns df1) prop1 @ or_nulls (columns df2) prop2"
  let ?g1 = "geometry_column_name df1" and ?g2 = "geometry_column_name df2"
  note both = gather_present [OF assms, of newpoly]
  have absent: "filter (\<lambda>kv. fst kv \<noteq> ?g1 \<and> fst kv \<noteq> ?g2) ?s = filter (\<lambda>kv. fst kv \<noteq> ?g1) ?s"
    if "?g2 \<notin> fst ` set (filter (\<lambda>kv. fst kv \<noteq> ?g1) ?s)"
    using that by (rule filter_absent)
  from both absent show ?thesis by (simp del: filter_append)
qed

theorem gather_drops_both_geometry_columns_witness:
  "geometry_column_name layer1 \<in>
     fst ` set (or_nulls (columns layer1)
                  (Some [(''name'', Val ''A''), (''geometry'', Geom (Polygon (square 0 4)))]) @
                or_nulls (columns layer2) None) \<and>
   geometry_column_name layer2 \<notin>
     fst ` set (filter (\<lambda>kv. fst kv \<noteq> geometry_column_name layer1)
                 (or_nulls (columns layer1)
                    (Some [(''name'', Val ''A''), (''geometry'', Geom (Polygon (square 0 4)))]) @
                  or_nulls (columns layer2) None)) \<and>
   gather layer1 layer2
     (Some [(''name'', Val ''A''), (''geometry'', Geom (Polygon (square 0 4)))]) None face_left =
     Inr [(''name'', Val ''A''), (''kind'', Null), (''geometry'', Geom (Polygon face_left))]"
proof -
  let ?prop1 = "Some [(''name'', Val ''A''), (''geometry'', Geom (Polygon (square 0 4)))]
      :: (coord, string) series option"
  let ?s = "or_nulls (columns layer1) ?prop1 @ or_nulls (columns layer2) None"
  have s: "?s = [(''name'', Val ''A''), (''geometry'', Geom (Polygon (square 0 4))),
      (''kind'', Null), (''geometry'', Null)]"
    by (simp add: or_nulls_def null_series_def layer2_def)
  have a: "geometry_column_name layer1 \<in> fst ` set ?s"
    unfolding s by (simp add: layer1_def)
  have b: "geometry_column_name layer2 \<notin>
      fst ` set (filter (\<lambda>kv. fst kv \<noteq> geometry_column_name layer1) ?s)"
    unfolding s by (simp add: layer1_def layer2_def)
  have c: "series_setitem ''geometry'' (Geom (Polygon face_left))
       (filter (\<lambda>kv. fst kv \<noteq> geometry_column_name layer1) ?s) =
     [(''name'', Val ''A''), (''kind'', Null), (''geometry'', Geom (Polygon face_left))]"
    unfolding s by (simp add: layer1_def series_setitem_def)
  from gather_drops_both_geometry_columns [OF a, of face_left] b
  have "gather layer1 layer2 ?prop1 None face_left =
     Inr (series_setitem ''geometry'' (Geom (Polygon face_left))
       (filter (\<lambda>kv. fst kv \<noteq> geometry_column_name layer1) ?s))"
    by blast
  then have "gather layer1 layer2 ?prop1 None face_left =
     Inr [(''name'', Val ''A''), (''kind'', Null), (''geometry'', Geom (Polygon face_left))]"
    unfolding c .
  with a b show ?thesis by blast
qed

text \<open>
  Claim C9. Let the geometries of a frame be objects of a store. Running
  \<^verbatim>\<open>_extract_rings\<close> on them, and again on the store that the first run leaves, gives
  the same result both times (the result of the function on the frame), and after either
  run every object that was in the store before is unchanged: a repair only adds an
  object. This holds for every input; on one that is valid already the store after each
  run is the store before it.
\<close>

theorem extraction_repeatable_and_read_only:
  assumes "stored_in df refs h"
    and "extract_rings_st K refs h = (result, h')"
    and "extract_rings_st K refs h' = (result', h'')"
  shows "result = extract_rings K df \<and> result' = result \<and>
         take (length h) h' = h \<and> take (length h) h'' = h \<and>
         (list_all (\<lambda>ref. list_all (is_valid K) (constituent_polygons (h ! ref))) refs \<longrightarrow>
            h' = h \<and> h'' = h)"
proof -
  have "h' = h \<and> h'' = h"
    if valid: "list_all (\<lambda>ref. list_all (is_valid K) (constituent_polygons (h ! ref))) refs"
  proof -
    from extract_loop_st_valid [OF valid, of "[]"] assms(2) have "h' = h"
      by (simp add: extract_rings_st_def)
    moreover from extract_loop_st_valid [OF valid, of "[]"] assms(3) \<open>h' = h\<close> have "h'' = h"
      by (simp add: extract_rings_st_def)
    ultimately show ?thesis by simp
  qed
  with extract_twice [OF assms] show ?thesis by blast
qed

theorem extraction_repeatable_and_read_only_witness:
  "stored_in layer1 [0] [Polygon (square 0 4), Polygon (square 2 6)] \<and>
   extract_rings_st squares_kernel [0] [Polygon (square 0 4), Polygon (square 2 6)] =
     (Inr [exterior (square 0 4)], [Polygon (square 0 4), Polygon (square 2 6)]) \<and>
   list_all (\<lambda>ref. list_all (is_valid squares_kernel)
      (constituent_polygons ([Polygon (square 0 4), Polygon (square 2 6)] ! ref))) [0] \<and>
   Inr [exterior (square 0 4)] = extract_rings squares_kernel layer1 \<and>
   stored_in
     (layer1\<lparr>rows := [[Val ''T'', Geom (Polygon \<lparr>exterior = [(0, 0), (9, 0), (9, 9)],
                                                    interiors = []\<rparr>)]]\<rparr>)
     [0] [Polygon \<lparr>exterior = [(0, 0), (9, 0), (9, 9)], interiors = []\<rparr>] \<and>
   extract_rings_st squares_kernel [0]
     [Polygon \<lparr>exterior = [(0, 0), (9, 0), (9, 9)], interiors = []\<rparr>] =
     (Inr [[(0, 0), (9, 0), (9, 9), (0, 0)]],
      [Polygon \<lparr>exterior = [(0, 0), (9, 0), (9, 9)], interiors = []\<rparr>,
       Polygon \<lparr>exterior = [(0, 0), (9, 0), (9, 9), (0, 0)], interiors = []\<rparr>]) \<and>
   extract_rings_st squares_kernel [0]
     [Polygon \<lparr>exterior = [(0, 0), (9, 0), (9, 9)], interiors = []\<rparr>,
      Polygon \<lparr>exterior = [(0, 0), (9, 0), (9, 9), (0, 0)], interiors = []\<rparr>] =
     (Inr [[(0, 0), (9, 0), (9, 9), (0, 0)]],
      [Polygon \<lparr>exterior = [(0, 0), (9, 0), (9, 9)], interiors = []\<rparr>,
       Polygon \<lparr>exterior = [(0, 0), (9, 0), (9, 9), (0, 0)], interiors = []\<rparr>,
       Polygon \<lparr>exterior = [(0, 0), (9, 0), (9, 9), (0, 0)], interiors = []\<rparr>]) \<and>
   take (length [Polygon \<lparr>exterior = [(0, 0), (9, 0), (9, 9)], interiors = []\<rparr> :: coord geometry])
     [Polygon \<lparr>exterior = [(0, 0), (9, 0), (9, 9)], interiors = []\<rparr>,
      Polygon \<lparr>exterior = [(0, 0), (9, 0), (9, 9), (0, 0)], interiors = []\<rparr>] =
     [Polygon \<lparr>exterior = [(0, 0), (9, 0), (9, 9)], interiors = []\<rparr>]"
proof -
  let ?h = "[Polygon (square 0 4), Polygon (square 2 6)] :: coord store"
  have a: "stored_in layer1 [0] ?h"
    by code_simp
  have b: "extract_rings_st squares_kernel [0] ?h = (Inr [exterior (square 0 4)], ?h)"
    by code_simp
  have c: "list_all (\<lambda>ref. list_all (is_valid squares_kernel)
      (constituent_polygons (?h ! ref))) [0]"
    by code_simp
  let ?open = "\<lparr>exterior = [(0, 0), (9, 0), (9, 9)], interiors = []\<rparr> :: coord polygon"
  let ?closed = "\<lparr>exterior = [(0, 0), (9, 0), (9, 9), (0, 0)], interiors = []\<rparr> :: coord polygon"
  let ?df = "layer1\<lparr>rows := [[Val ''T'', Geom (Polygon ?open)]]\<rparr>"
  have d: "stored_in ?df [0] [Polygon ?open]"
    by code_simp
  have e: "extract_rings_st squares_kernel [0] [Polygon ?open] =
      (Inr [[(0, 0), (9, 0), (9, 9), (0, 0)]], [Polygon ?open, Polygon ?closed])"
    by code_simp
  have f: "extract_rings_st squares_kernel [0] [Polygon ?open, Polygon ?closed] =
      (Inr [[(0, 0), (9, 0), (9, 9), (0, 0)]], [Polygon ?open, Polygon ?closed, Polygon ?closed])"
    by code_simp
  from extraction_repeatable_and_read_only [OF a b b]
    extraction_repeatable_and_read_only [OF d e f] a b c d e f
  show ?thesis by simp
qed

text \<open>
  Claim C10. No frame that \<^verbatim>\<open>overlay\<close> returns has a column named \<^verbatim>\<open>index\<close>. So when
  a layer has an attribute column of that name, the columns of the result are not the
  output schema of the specification. The clean-up of lines 141-142 is what removes the
  column: applied to the frame built from the rows, it leaves the columns as they are
  when none is named \<^verbatim>\<open>index\<close>, and otherwise drops that column and keeps the old index
  as \<^verbatim>\<open>level_0\<close>.
\<close>

theorem index_column_is_lost:
  assumes "overlay K df1 df2 how = Inr out"
  shows "''index'' \<notin> set (columns out) \<and>
     (''index'' \<in> set (columns df1) \<and> ''index'' \<noteq> geometry_column_name df1 \<or>
      ''index'' \<in> set (columns df2) \<and> ''index'' \<noteq> geometry_column_name df2 \<longrightarrow>
        set (columns out) \<noteq> schema_union df1 df2) \<and>
     (from_series collection = Inr gdf \<longrightarrow> clean_up collection = Inr out \<longrightarrow>
        columns out =
          (if ''index'' \<in> set (columns gdf)
           then ''level_0'' # filter (\<lambda>c. c \<noteq> ''index'') (columns gdf)
           else columns gdf))"
proof -
  from overlay_Inr [OF assms] obtain rows' where "clean_up rows' = Inr out"
    by blast
  then have gone: "''index'' \<notin> set (columns out)"
    by (rule clean_up_no_index)
  have "''index'' \<in> schema_union df1 df2"
    if "''index'' \<in> set (columns df1) \<and> ''index'' \<noteq> geometry_column_name df1 \<or>
      ''index'' \<in> set (columns df2) \<and> ''index'' \<noteq> geometry_column_name df2"
    using that by (auto simp: schema_union_def)
  with gone have differ: "''index'' \<in> set (columns df1) \<and> ''index'' \<noteq> geometry_column_name df1 \<or>
      ''index'' \<in> set (columns df2) \<and> ''index'' \<noteq> geometry_column_name df2 \<longrightarrow>
        set (columns out) \<noteq> schema_union df1 df2"
    by blast
  from gone differ clean_up_columns [of collection out gdf] show ?thesis by blast
qed

theorem index_column_is_lost_witness:
  "overlay squares_kernel layer1 (layer2\<lparr>columns := [''index'', ''geometry'']\<rparr>) ''intersection'' =
     Inr \<lparr>columns = [''level_0'', ''name'', ''geometry''], geometry_column_name = ''geometry'',
          rows = [[OldIndex 0, Val ''A'', Geom (Polygon face_both)]]\<rparr> \<and>
   ''index'' \<in> set (columns (layer2\<lparr>columns := [''index'', ''geometry'']\<rparr>)) \<and>
   ''index'' \<noteq> geometry_column_name (layer2\<lparr>columns := [''index'', ''geometry'']\<rparr>) \<and>
   from_series [[(''name'', Val ''A''), (''index'', Val ''B''),
                 (''geometry'', Geom (Polygon face_both))]] =
     Inr \<lparr>columns = [''name'', ''index'', ''geometry''], geometry_column_name = ''geometry'',
          rows = [[Val ''A'', Val ''B'', Geom (Polygon face_both)]]\<rparr> \<and>
   clean_up [[(''name'', Val ''A''), (''index'', Val ''B''),
              (''geometry'', Geom (Polygon face_both))]] =
     Inr \<lparr>columns = [''level_0'', ''name'', ''geometry''], geometry_column_name = ''geometry'',
          rows = [[OldIndex 0, Val ''A'', Geom (Polygon face_both) :: (coord, string) cell]]\<rparr> \<and>
   ''index'' \<notin> set [''level_0'', ''name'', ''geometry''] \<and>
   set [''level_0'', ''name'', ''geometry''] \<noteq>
     schema_union layer1 (layer2\<lparr>columns := [''index'', ''geometry'']\<rparr>)"
proof -
  let ?df2 = "layer2\<lparr>columns := [''index'', ''geometry'']\<rparr>"
  let ?out = "\<lparr>columns = [''level_0'', ''name'', ''geometry''], geometry_column_name = ''geometry'',
          rows = [[OldIndex 0, Val ''A'', Geom (Polygon face_both)]]\<rparr> :: (coord, string) frame"
  let ?collection = "[[(''name'', Val ''A''), (''index'', Val ''B''),
                 (''geometry'', Geom (Polygon face_both))]] :: (coord, string) series list"
  let ?gdf = "\<lparr>columns = [''name'', ''index'', ''geometry''], geometry_column_name = ''geometry'',
          rows = [[Val ''A'', Val ''B'', Geom (Polygon face_both)]]\<rparr> :: (coord, string) frame"
  have a: "overlay squares_kernel layer1 ?df2 ''intersection'' = Inr ?out"
    by code_simp
  have b: "''index'' \<in> set (columns ?df2)" "''index'' \<noteq> geometry_column_name ?df2"
    by (simp_all add: layer2_def)
  have c: "from_series ?collection = Inr ?gdf"
    by code_simp
  have d: "clean_up ?collection = Inr ?out"
    by code_simp
  from index_column_is_lost [OF a, of ?collection ?gdf] a b c d
  show ?thesis by simp
qed

end
